theory Spec2Isabelle
  imports Main "HOL-Library.AList"
begin

section \<open>The evaluator of generated programs (implementation/evaluator.py)\<close>

text \<open>
  The module turns a generated fragment into a runnable program, runs it on every test
  input in a worker process and registers the scores. Three things it relies on are not
  Python code of the module and enter the model as parameters, collected in the record
  \<open>env\<close> below: the parser \<open>ast.parse\<close>, the execution of an untrusted program
  by a worker process, and the module \<open>code_manipulation\<close>.
\<close>

subsection \<open>Python values and exceptions\<close>

datatype py_float = Finite int int | Infinite bool | NaN

datatype pyval =
    PyNone
  | PyBool bool
  | PyInt int
  | PyFloat py_float
  | PyStr string
  | PyObject string

text \<open>\<open>isinstance(v, (int, float))\<close>: \<open>bool\<close> is a subclass of \<open>int\<close>.\<close>

fun is_int_or_float :: "pyval \<Rightarrow> bool" where
  "is_int_or_float (PyBool b) = True"
| "is_int_or_float (PyInt i) = True"
| "is_int_or_float (PyFloat x) = True"
| "is_int_or_float v = False"

text \<open>
  The exceptions that can leave the functions of the module: \<open>TypeError\<close> from
  \<open>e.lineno - 1\<close> when the line number is \<open>None\<close>, \<open>AssertionError\<close> from
  the visitor's property, \<open>QueueEmpty\<close> from \<open>queue.get_nowait()\<close>,
  \<open>ValueError\<close> raised by \<open>analyse\<close>, the failure of
  \<open>Program.get_function\<close>, and an exception of \<open>ast.parse\<close> that is no
  \<open>SyntaxError\<close> (\<open>RecursionError\<close>, \<open>MemoryError\<close>, \<open>ValueError\<close>), given by its
  text.
\<close>

datatype py_error =
    TypeError
  | AssertionError
  | QueueEmpty
  | ValueError string
  | FunctionNotFound string
  | ParserError string

subsection \<open>The worker process\<close>

text \<open>
  What the body of the \<open>try\<close> block of \<open>sandbox_target\<close> does with a program, a
  function name and an argument: it returns a value, it raises an \<open>Exception\<close>
  (given by its text and its traceback), or the process ends without reaching either
  \<open>queue.put\<close> (a \<open>BaseException\<close> that is no \<open>Exception\<close>, such as
  \<open>SystemExit\<close>, or the death of the process). \<open>duration\<close> is the time the worker
  needs, \<open>None\<close> when it never ends by itself.
\<close>

datatype exec_outcome = Returns pyval | Raises string string | Exits

record worker_run =
  duration :: "nat option"
  outcome :: exec_outcome

datatype proc_status = Exited | Terminated

subsection \<open>Programs and functions of \<open>code_manipulation\<close>\<close>

text \<open>
  Modelled from the spec: the classes \<open>Function\<close> and \<open>Program\<close> of
  \<open>code_manipulation\<close>, which is not among the sources. A Function has a name, a
  parameter signature and a body; a Program is a preface and a collection of Functions.
  Function objects are mutable and shared by reference, so they live in a store: a
  reference is an index into the list of all Function objects allocated so far.
\<close>

record Function =
  name :: string
  args :: string
  body :: string

type_synonym ref = nat

type_synonym store = "Function list"

record Program =
  preface :: string
  program_functions :: "ref list"

subsection \<open>The parser\<close>

text \<open>
  The part of a syntax tree that \<open>_FunctionLineVisitor\<close> looks at: a node is a
  function definition with its name and \<open>end_lineno\<close>, or any other node, and has
  children.
\<close>

datatype ast = Node "(string \<times> nat) option" "ast list"

text \<open>
  \<open>ast.parse\<close> returns a tree, raises a \<open>SyntaxError\<close> whose \<open>lineno\<close> is
  an integer or \<open>None\<close>, or raises another exception, which the loop does not
  catch.
\<close>

datatype parse_result = Parsed ast | SyntaxError "int option" | OtherError string

subsection \<open>The environment\<close>

record 'i env =
  ast_parse :: "string \<Rightarrow> parse_result"
  rename_function_calls :: "string \<Rightarrow> string \<Rightarrow> string \<Rightarrow> string"
  get_functions_called :: "string \<Rightarrow> string list"
  render :: "string \<Rightarrow> Function list \<Rightarrow> string"
  py_str :: "'i \<Rightarrow> string"
  worker :: "string \<Rightarrow> string \<Rightarrow> 'i \<Rightarrow> worker_run"

subsection \<open>\<open>sandbox_target\<close> and \<open>Sandbox.run\<close>\<close>

text \<open>
  The queue is the list of the items put and not yet taken. \<open>sandbox_target\<close> puts
  \<open>(result, True)\<close> after a normal return and \<open>(f"Error: {e}\n{tb}", False)\<close> in the
  handler of \<open>Exception\<close>; in the third case nothing is put.
\<close>

definition sandbox_target :: "(pyval \<times> bool) list \<Rightarrow> exec_outcome \<Rightarrow> (pyval \<times> bool) list" where
  "sandbox_target queue oc =
     (case oc of
        Returns result \<Rightarrow> queue @ [(result, True)]
      | Raises e tb \<Rightarrow> queue @ [(PyStr (''Error: '' @ e @ ''\<newline>'' @ tb), False)]
      | Exits \<Rightarrow> queue)"

text \<open>\<open>process.is_alive()\<close> after \<open>process.join(timeout_seconds)\<close>.\<close>

definition is_alive :: "worker_run \<Rightarrow> int \<Rightarrow> bool" where
  "is_alive w timeout_seconds =
     (case duration w of None \<Rightarrow> True | Some d \<Rightarrow> timeout_seconds < int d)"

text \<open>
  \<open>Sandbox.run\<close>: the result is the returned pair or the exception raised, together
  with the way the worker process ended.
\<close>

definition Sandbox_run ::
  "'i env \<Rightarrow> string \<Rightarrow> string \<Rightarrow> 'i \<Rightarrow> int \<Rightarrow> (py_error + pyval \<times> bool) \<times> proc_status" where
  "Sandbox_run E program function_to_run test_input timeout_seconds =
     (let w = worker E program function_to_run test_input in
      if is_alive w timeout_seconds
      then (Inr (PyStr ''Timeout Error: Code execution exceeded time limit'', False), Terminated)
      else (case sandbox_target [] (outcome w) of
              [] \<Rightarrow> (Inl QueueEmpty, Exited)
            | (result, success) # rest \<Rightarrow> (Inr (result, success), Exited)))"

subsection \<open>Text: \<open>str.splitlines\<close>, \<open>"\n".join\<close> and slices\<close>

text \<open>
  A text is a list of characters with code points below 256. The line boundaries of
  \<open>str.splitlines\<close> among them are LF, VT, FF, CR, FS, GS, RS and NEL; CR followed
  by LF is one boundary.
\<close>

definition is_linebreak :: "char \<Rightarrow> bool" where
  "is_linebreak c \<longleftrightarrow>
     c \<in> set [CHR 0x0A, CHR 0x0B, CHR 0x0C, CHR 0x0D, CHR 0x1C, CHR 0x1D, CHR 0x1E, CHR 0x85]"

text \<open>
  \<open>splitlines_from cur s\<close> splits \<open>s\<close>, where \<open>cur\<close> is the part of the current
  line already read. A boundary at the very end of the text opens no further line.
\<close>

fun splitlines_from :: "string \<Rightarrow> string \<Rightarrow> string list" where
  "splitlines_from cur [] = (if cur = [] then [] else [cur])"
| "splitlines_from cur [c] = (if is_linebreak c then [cur] else [cur @ [c]])"
| "splitlines_from cur (c # d # cs) =
     (if c = CHR 0x0D \<and> d = CHR 0x0A then cur # splitlines_from [] cs
      else if is_linebreak c then cur # splitlines_from [] (d # cs)
      else splitlines_from (cur @ [c]) (d # cs))"

definition splitlines :: "string \<Rightarrow> string list" where
  "splitlines s = splitlines_from [] s"

fun join_nl :: "string list \<Rightarrow> string" where
  "join_nl [] = []"
| "join_nl [l] = l"
| "join_nl (l # m # ls) = l @ ''\<newline>'' @ join_nl (m # ls)"

text \<open>The slice \<open>xs[:k]\<close> for an integer \<open>k\<close>: a negative \<open>k\<close> counts from the end.\<close>

definition slice_to :: "int \<Rightarrow> 'a list \<Rightarrow> 'a list" where
  "slice_to k xs = (if 0 \<le> k then take (nat k) xs else take (length xs - nat (- k)) xs)"

subsection \<open>\<open>_FunctionLineVisitor\<close>\<close>

text \<open>
  \<open>visit\<close> threads the attribute \<open>_function_end_line\<close> through the traversal:
  \<open>visit_FunctionDef\<close> overwrites it at every function definition of the target name
  and then visits the children, as \<open>generic_visit\<close> does for every other node.
\<close>

fun visit :: "string \<Rightarrow> nat option \<Rightarrow> ast \<Rightarrow> nat option" where
  "visit target end_line (Node fd children) =
     fold (\<lambda>child acc. visit target acc child) children
       (case fd of
          None \<Rightarrow> end_line
        | Some (nm, end_lineno) \<Rightarrow> if nm = target then Some end_lineno else end_line)"

text \<open>The property \<open>function_end_line\<close> asserts that a line was found.\<close>

definition function_end_line :: "nat option \<Rightarrow> py_error + nat" where
  "function_end_line end_line = (case end_line of None \<Rightarrow> Inl AssertionError | Some l \<Rightarrow> Inr l)"

subsection \<open>\<open>_trim_function_body\<close>\<close>

text \<open>The assignment in the handler of \<open>SyntaxError\<close>, for a line number \<open>lineno\<close>.\<close>

definition cut_at_line :: "string \<Rightarrow> int \<Rightarrow> string" where
  "cut_at_line code lineno = join_nl (slice_to (lineno - 1) (splitlines code))"

text \<open>
  The loop \<open>while tree is None\<close>. It ends with the text and its tree, with the
  \<open>TypeError\<close> of \<open>e.lineno - 1\<close> for a \<open>SyntaxError\<close> without line number,
  or with the exception of the parser that the handler does not catch; \<open>None\<close> is the
  loop that never ends.
\<close>

partial_function (option) parse_loop ::
  "(string \<Rightarrow> parse_result) \<Rightarrow> string \<Rightarrow> (py_error + string \<times> ast) option" where
  "parse_loop parse code =
     (case parse code of
        Parsed tree \<Rightarrow> Some (Inr (code, tree))
      | SyntaxError None \<Rightarrow> Some (Inl TypeError)
      | SyntaxError (Some lineno) \<Rightarrow> parse_loop parse (cut_at_line code lineno)
      | OtherError e \<Rightarrow> Some (Inl (ParserError e)))"

declare parse_loop.simps [code]





definition fake_header :: string where
  "fake_header = ''def fake_function_header():\<newline>''"

definition trim_function_body :: "(string \<Rightarrow> parse_result) \<Rightarrow> string \<Rightarrow> (py_error + string) option" where
  "trim_function_body parse generated_code =
     (if generated_code = [] then Some (Inr [])
      else (case parse_loop parse (fake_header @ generated_code) of
              None \<Rightarrow> None
            | Some (Inl e) \<Rightarrow> Some (Inl e)
            | Some (Inr (code, tree)) \<Rightarrow>
                if code = [] then Some (Inr [])
                else (case function_end_line (visit ''fake_function_header'' None tree) of
                        Inl e \<Rightarrow> Some (Inl e)
                      | Inr end_line \<Rightarrow>
                          Some (Inr (join_nl (take (end_line - 1) (drop 1 (splitlines code)))
                                     @ ''\<newline>\<newline>'')))))"

subsection \<open>The store: \<open>copy.deepcopy\<close>, \<open>get_function\<close>, assignment to \<open>body\<close>\<close>

fun index_of :: "'a \<Rightarrow> 'a list \<Rightarrow> nat" where
  "index_of x [] = 0"
| "index_of x (y # ys) = (if x = y then 0 else Suc (index_of x ys))"

text \<open>
  \<open>copy.deepcopy\<close> of a program allocates one new Function object for every Function
  object the program refers to (an object met twice is copied once) and returns a
  program that refers to the copies, position by position.
\<close>

definition deepcopy :: "store \<Rightarrow> Program \<Rightarrow> Program \<times> store" where
  "deepcopy h p =
     (let rs = remdups (program_functions p) in
      (p\<lparr>program_functions := map (\<lambda>r. length h + index_of r rs) (program_functions p)\<rparr>,
       h @ map (\<lambda>r. h ! r) rs))"

text \<open>
  Modelled from the spec: \<open>Program.get_function\<close> of \<open>code_manipulation\<close>, which
  returns a reference to the Function of the given name and fails when the program has
  no such function.
\<close>

definition get_function :: "store \<Rightarrow> Program \<Rightarrow> string \<Rightarrow> py_error + ref" where
  "get_function h p function_name =
     (case find (\<lambda>r. name (h ! r) = function_name) (program_functions p) of
        None \<Rightarrow> Inl (FunctionNotFound function_name)
      | Some r \<Rightarrow> Inr r)"

text \<open>The Functions a program refers to, and \<open>str(program)\<close>.\<close>

definition functions_of :: "store \<Rightarrow> Program \<Rightarrow> Function list" where
  "functions_of h p = map (\<lambda>r. h ! r) (program_functions p)"

definition program_text :: "'i env \<Rightarrow> store \<Rightarrow> Program \<Rightarrow> string" where
  "program_text E h p = render E (preface p) (functions_of h p)"

subsection \<open>\<open>_sample_to_program\<close>\<close>

text \<open>The decimal text of an integer, as an f-string prints it.\<close>

fun str_nat :: "nat \<Rightarrow> string" where
  "str_nat n = (if n < 10 then [''0123456789'' ! n]
                else str_nat (n div 10) @ [''0123456789'' ! (n mod 10)])"

definition str_int :: "int \<Rightarrow> string" where
  "str_int i = (if i < 0 then ''-'' @ str_nat (nat (- i)) else str_nat (nat i))"

text \<open>
  The result is the pair returned (a reference to the evolved function and the text of
  the program) or the exception raised, with the store as the call leaves it; \<open>None\<close>
  when the loop of \<open>_trim_function_body\<close> never ends.
\<close>

definition sample_to_program ::
  "'i env \<Rightarrow> store \<Rightarrow> string \<Rightarrow> int option \<Rightarrow> Program \<Rightarrow> string
     \<Rightarrow> ((py_error + ref \<times> string) \<times> store) option" where
  "sample_to_program E h generated_code version_generated template function_to_evolve =
     (case trim_function_body (ast_parse E) generated_code of
        None \<Rightarrow> None
      | Some (Inl e) \<Rightarrow> Some (Inl e, h)
      | Some (Inr trimmed) \<Rightarrow>
          (let new_body =
                 (case version_generated of
                    None \<Rightarrow> trimmed
                  | Some v \<Rightarrow>
                      rename_function_calls E trimmed
                        (function_to_evolve @ ''_v'' @ str_int v) function_to_evolve);
               (program, h1) = deepcopy h template
           in case get_function h1 program function_to_evolve of
                Inl e \<Rightarrow> Some (Inl e, h1)
              | Inr evolved_function \<Rightarrow>
                  (let h2 = h1[evolved_function := (h1 ! evolved_function)\<lparr>body := new_body\<rparr>]
                   in Some (Inr (evolved_function, program_text E h2 program), h2))))"

subsection \<open>\<open>_calls_ancestor\<close>\<close>

definition startswith :: "string \<Rightarrow> string \<Rightarrow> bool" where
  "startswith s p \<longleftrightarrow> take (length p) s = p"

fun calls_ancestor_in :: "string \<Rightarrow> string list \<Rightarrow> bool" where
  "calls_ancestor_in function_to_evolve [] = False"
| "calls_ancestor_in function_to_evolve (nm # names) =
     (if startswith nm (function_to_evolve @ ''_v'') then True
      else calls_ancestor_in function_to_evolve names)"

definition calls_ancestor :: "'i env \<Rightarrow> string \<Rightarrow> string \<Rightarrow> bool" where
  "calls_ancestor E program function_to_evolve =
     calls_ancestor_in function_to_evolve (get_functions_called E program)"

subsection \<open>\<open>Evaluator\<close>\<close>

text \<open>
  The fields of an Evaluator that \<open>analyse\<close> reads. The database is part of the state
  below, and the sandbox has no fields.
\<close>

record 'i Evaluator =
  template :: Program
  function_to_evolve :: string
  function_to_run :: string
  inputs :: "'i list"
  timeout_seconds :: int

text \<open>
  The state \<open>analyse\<close> works on: the store of Function objects, the calls of
  \<open>register_program\<close> the database has received (the function, the island and the
  scores of each), and the worker processes started so far, each with its input and the
  way it ended. \<open>scores_per_test\<close> is a dictionary: an association list in insertion
  order, where a key that is present keeps its place when it is assigned again.
\<close>

type_synonym scores = "(string \<times> pyval) list"

record 'i state =
  store :: store
  registered :: "(ref \<times> int option \<times> scores) list"
  workers :: "('i \<times> proc_status) list"

text \<open>The \<open>for\<close> loop of \<open>analyse\<close> over the inputs that are left.\<close>

fun run_inputs ::
  "'i env \<Rightarrow> 'i Evaluator \<Rightarrow> string \<Rightarrow> 'i list \<Rightarrow> scores \<Rightarrow> ('i \<times> proc_status) list
     \<Rightarrow> (py_error + scores) \<times> ('i \<times> proc_status) list" where
  "run_inputs E ev program [] scores_per_test ws = (Inr scores_per_test, ws)"
| "run_inputs E ev program (current_input # rest) scores_per_test ws =
     (case Sandbox_run E program (function_to_run ev) current_input (timeout_seconds ev) of
        (Inl e, ended) \<Rightarrow> (Inl e, ws @ [(current_input, ended)])
      | (Inr (test_output, runs_ok), ended) \<Rightarrow>
          if runs_ok \<and> \<not> calls_ancestor E program (function_to_evolve ev)
               \<and> test_output \<noteq> PyNone
          then if \<not> is_int_or_float test_output
               then (Inl (ValueError ''@function.run did not return an int/float score.''),
                     ws @ [(current_input, ended)])
               else run_inputs E ev program rest
                      (AList.update (py_str E current_input) test_output scores_per_test)
                      (ws @ [(current_input, ended)])
          else run_inputs E ev program rest scores_per_test (ws @ [(current_input, ended)]))"

text \<open>
  \<open>analyse\<close> returns nothing or raises; either way it leaves a state. \<open>None\<close> when
  \<open>_sample_to_program\<close> never returns.
\<close>

definition analyse ::
  "'i env \<Rightarrow> 'i Evaluator \<Rightarrow> 'i state \<Rightarrow> string \<Rightarrow> int option \<Rightarrow> int option
     \<Rightarrow> ((py_error + unit) \<times> 'i state) option" where
  "analyse E ev s sample island_id version_generated =
     (case sample_to_program E (store s) sample version_generated (template ev)
             (function_to_evolve ev) of
        None \<Rightarrow> None
      | Some (Inl e, h) \<Rightarrow> Some (Inl e, s\<lparr>store := h\<rparr>)
      | Some (Inr (new_function, program), h) \<Rightarrow>
          (case run_inputs E ev program (inputs ev) [] (workers s) of
             (Inl e, ws) \<Rightarrow> Some (Inl e, s\<lparr>store := h, workers := ws\<rparr>)
           | (Inr scores_per_test, ws) \<Rightarrow>
               if scores_per_test \<noteq> []
               then Some (Inr (), s\<lparr>store := h, workers := ws,
                            registered := registered s @ [(new_function, island_id, scores_per_test)]\<rparr>)
               else Some (Inr (), s\<lparr>store := h, workers := ws\<rparr>)))"

subsection \<open>Notions used to state the properties of \<open>analyse\<close>\<close>

text \<open>
  The output of the run on one input, the condition of the \<open>if\<close> statement of the
  loop for that input, and the way its worker ended.
\<close>

definition run_output :: "'i env \<Rightarrow> 'i Evaluator \<Rightarrow> string \<Rightarrow> 'i \<Rightarrow> pyval" where
  "run_output E ev program x =
     (case fst (Sandbox_run E program (function_to_run ev) x (timeout_seconds ev)) of
        Inl e \<Rightarrow> PyNone
      | Inr (test_output, runs_ok) \<Rightarrow> test_output)"

definition passes_filter :: "'i env \<Rightarrow> 'i Evaluator \<Rightarrow> string \<Rightarrow> 'i \<Rightarrow> bool" where
  "passes_filter E ev program x =
     (case fst (Sandbox_run E program (function_to_run ev) x (timeout_seconds ev)) of
        Inl e \<Rightarrow> False
      | Inr (test_output, runs_ok) \<Rightarrow>
          runs_ok \<and> \<not> calls_ancestor E program (function_to_evolve ev) \<and> test_output \<noteq> PyNone)"

definition run_ended :: "'i env \<Rightarrow> 'i Evaluator \<Rightarrow> string \<Rightarrow> 'i \<Rightarrow> 'i \<times> proc_status" where
  "run_ended E ev program x =
     (x, snd (Sandbox_run E program (function_to_run ev) x (timeout_seconds ev)))"

text \<open>What an iteration of the loop that does not raise does to the scores.\<close>

definition score_step :: "'i env \<Rightarrow> 'i Evaluator \<Rightarrow> string \<Rightarrow> 'i \<Rightarrow> scores \<Rightarrow> scores" where
  "score_step E ev program x m =
     (if passes_filter E ev program x
      then AList.update (py_str E x) (run_output E ev program x) m else m)"

text \<open>The calls of \<open>register_program\<close> made between two states.\<close>

definition forwarded :: "'i state \<Rightarrow> 'i state \<Rightarrow> (ref \<times> int option \<times> scores) list" where
  "forwarded s s' = drop (length (registered s)) (registered s')"

text \<open>
  The references of a program point into the store; a store extends another when it
  still holds every object of the other unchanged.
\<close>

definition valid_refs :: "store \<Rightarrow> Program \<Rightarrow> bool" where
  "valid_refs h p \<longleftrightarrow> (\<forall>r \<in> set (program_functions p). r < length h)"

definition extends :: "store \<Rightarrow> store \<Rightarrow> bool" where
  "extends h h' \<longleftrightarrow> length h \<le> length h' \<and> (\<forall>a < length h. h' ! a = h ! a)"

text \<open>The states reached from a state by any number of calls of \<open>analyse\<close>.\<close>

inductive analysed :: "'i env \<Rightarrow> 'i Evaluator \<Rightarrow> 'i state \<Rightarrow> 'i state \<Rightarrow> bool"
  for E :: "'i env" and ev :: "'i Evaluator" and s :: "'i state" where
  analysed_none: "analysed E ev s s"
| analysed_call:
    "analysed E ev s s1 \<Longrightarrow> analyse E ev s1 sample island_id version_generated = Some (r, s2)
       \<Longrightarrow> analysed E ev s s2"

text \<open>
  The pattern of the spec for the name of an ancestor,
  \<open><function_to_evolve>_v<digits>\<close>, to compare with the test of \<open>_calls_ancestor\<close>.
\<close>

definition is_digit :: "char \<Rightarrow> bool" where
  "is_digit c \<longleftrightarrow> c \<in> set ''0123456789''"

definition matches_version_pattern :: "string \<Rightarrow> string \<Rightarrow> bool" where
  "matches_version_pattern evolved_name nm \<longleftrightarrow>
     startswith nm (evolved_name @ ''_v'')
     \<and> drop (length evolved_name + 2) nm \<noteq> []
     \<and> list_all is_digit (drop (length evolved_name + 2) nm)"

section \<open>A concrete environment\<close>

text \<open>
  The closed statements below are evaluated in one environment. Its template has a
  helper \<open>f_validate\<close>, the function to evolve \<open>f\<close> and the function to run
  \<open>run\<close>; programs are rendered as a preface followed by the functions. The parser
  and the worker are tables: for each text that occurs, what CPython 3.11 answers for
  it, and a \<open>SyntaxError\<close> without line number (an \<open>Exception\<close> in the worker) for
  every text outside the table. Test inputs are integers.
\<close>

definition function_text :: "Function \<Rightarrow> string" where
  "function_text f = ''def '' @ name f @ ''('' @ args f @ ''):\<newline>'' @ body f @ ''\<newline>\<newline>''"

definition scenario_render :: "string \<Rightarrow> Function list \<Rightarrow> string" where
  "scenario_render pre fs =
     (if pre = [] then [] else pre @ ''\<newline>'') @ join_nl (map function_text fs)"

definition fn_validate :: Function where
  "fn_validate = \<lparr>name = ''f_validate'', args = ''x'', body = ''  return x''\<rparr>"

definition fn_f :: Function where
  "fn_f = \<lparr>name = ''f'', args = ''x'', body = ''  return x''\<rparr>"

definition fn_run :: Function where
  "fn_run = \<lparr>name = ''run'', args = ''x'', body = ''  return f(x)''\<rparr>"

definition scenario_store :: store where
  "scenario_store = [fn_validate, fn_f, fn_run]"

text \<open>A store in which the body of \<open>f\<close> already ends with the blank separator line.\<close>

definition fixpoint_store :: store where
  "fixpoint_store = [fn_validate, fn_f\<lparr>body := ''  return x\<newline>\<newline>''\<rparr>, fn_run]"

definition scenario_template :: Program where
  "scenario_template = \<lparr>preface = [], program_functions = [0, 1, 2]\<rparr>"

text \<open>The text of the template with the body of \<open>f\<close> replaced.\<close>

definition scenario_program :: "string \<Rightarrow> string" where
  "scenario_program b = scenario_render [] [fn_validate, fn_f\<lparr>body := b\<rparr>, fn_run]"

definition loop_program :: string where
  "loop_program = ''def run(x):\<newline>  while True:\<newline>    pass\<newline>''"

definition exit_program :: string where
  "exit_program = ''import sys\<newline>def run(x):\<newline>  sys.exit(1)\<newline>''"

text \<open>A module with the one function \<open>fake_function_header\<close> that ends on line 2.\<close>

definition one_line_tree :: ast where
  "one_line_tree = Node None [Node (Some (''fake_function_header'', 2)) [Node None [], Node None []]]"

definition scenario_parse :: "string \<Rightarrow> parse_result" where
  "scenario_parse code =
     (if code = [] then Parsed (Node None [])
      else if code = ''def fake_function_header():'' then SyntaxError (Some 1)
      else if code = fake_header @ ''return 1\<newline>if True\<newline>'' then SyntaxError (Some 2)
      else if code = fake_header @ ''return 1'' then SyntaxError (Some 2)
      else if code = fake_header @ ''  if x:'' @ [CHR 0x0D, CHR 0x0A] then SyntaxError (Some 3)
      else if code = fake_header @ ''  if x:'' then SyntaxError (Some 2)
      else if code = fake_header @ ''  return 1\<newline>  if True\<newline>'' then SyntaxError (Some 3)
      else if code = fake_header @ ''  return 1'' then Parsed one_line_tree
      else if code = fake_header @ ''  return x'' then Parsed one_line_tree
      else if code = fake_header @ ''  return x * 2'' then Parsed one_line_tree
      else if code = fake_header @ ''  return f_validate(x) + 1'' then Parsed one_line_tree
      else if code = fake_header @ ''  return x * 2 if x < 2 else str(x)'' then Parsed one_line_tree
      else if code = fake_header @ ''  return x > 0'' then Parsed one_line_tree
      else SyntaxError None)"

definition scenario_called :: "string \<Rightarrow> string list" where
  "scenario_called program =
     (if program = scenario_program ''  return f_validate(x) + 1\<newline>\<newline>'' then [''f_validate'', ''f'']
      else if program = scenario_program ''  return x * 2 if x < 2 else str(x)\<newline>\<newline>'' then [''str'', ''f'']
      else [''f''])"

definition scenario_worker :: "string \<Rightarrow> string \<Rightarrow> int \<Rightarrow> worker_run" where
  "scenario_worker program function_name x =
     (if program = loop_program then \<lparr>duration = None, outcome = Exits\<rparr>
      else if program = exit_program then \<lparr>duration = Some 0, outcome = Exits\<rparr>
      else if function_name \<noteq> ''run''
        then \<lparr>duration = Some 0, outcome = Raises function_name ''KeyError''\<rparr>
      else if program = scenario_program ''  return x * 2\<newline>\<newline>''
        then \<lparr>duration = Some 0, outcome = Returns (PyInt (x * 2))\<rparr>
      else if program = scenario_program ''  return f_validate(x) + 1\<newline>\<newline>''
        then \<lparr>duration = Some 0, outcome = Returns (PyInt (x + 1))\<rparr>
      else if program = scenario_program ''  return x * 2 if x < 2 else str(x)\<newline>\<newline>''
        then \<lparr>duration = Some 0,
              outcome = Returns (if x < 2 then PyInt (x * 2) else PyStr (str_int x))\<rparr>
      else if program = scenario_program ''  return x > 0\<newline>\<newline>''
        then \<lparr>duration = Some 0, outcome = Returns (PyBool (x > 0))\<rparr>
      else \<lparr>duration = Some 0, outcome = Raises ''invalid syntax'' ''SyntaxError''\<rparr>)"

definition scenario_env :: "int env" where
  "scenario_env =
     \<lparr>ast_parse = scenario_parse,
      rename_function_calls = (\<lambda>code source_name target_name. code),
      get_functions_called = scenario_called,
      render = scenario_render,
      py_str = str_int,
      worker = scenario_worker\<rparr>"

definition scenario_evaluator :: "int list \<Rightarrow> int Evaluator" where
  "scenario_evaluator xs =
     \<lparr>template = scenario_template, function_to_evolve = ''f'', function_to_run = ''run'',
      inputs = xs, timeout_seconds = 30\<rparr>"

definition scenario_state :: "int state" where
  "scenario_state = \<lparr>store = scenario_store, registered = [], workers = []\<rparr>"

section \<open>The isolated executor\<close>

lemma sandbox_run_finished:
  "\<not> is_alive (worker E program fn x) t \<Longrightarrow>
   Sandbox_run E program fn x t =
     (case outcome (worker E program fn x) of
        Returns result \<Rightarrow> (Inr (result, True), Exited)
      | Raises e tb \<Rightarrow> (Inr (PyStr (''Error: '' @ e @ ''\<newline>'' @ tb), False), Exited)
      | Exits \<Rightarrow> (Inl QueueEmpty, Exited))"
  by (simp add: Sandbox_run_def sandbox_target_def split: exec_outcome.splits)

text \<open>
  C1. \<open>Sandbox.run\<close> does raise: a worker that ends without putting a result (here the
  program calls \<open>sys.exit\<close>, and \<open>SystemExit\<close> is no \<open>Exception\<close>) leaves the
  queue empty, and \<open>queue.get_nowait()\<close> raises \<open>queue.Empty\<close> to the caller.
\<close>

theorem sandbox_run_exit_raises_empty:
  "Sandbox_run scenario_env exit_program ''run'' 0 30 = (Inl QueueEmpty, Exited)"
  by (simp add: Sandbox_run_def sandbox_target_def is_alive_def scenario_env_def
      scenario_worker_def exit_program_def loop_program_def)

text \<open>
  C3 as stated fails: with the worker of an endless loop still running after a deadline of
  one second, the text returned is not the one of the claim.
\<close>

theorem sandbox_run_timeout_text_counterexample:
  "is_alive (worker scenario_env loop_program ''run'' 0) 1 \<and>
   fst (Sandbox_run scenario_env loop_program ''run'' 0 1)
     \<noteq> Inr (PyStr ''Timeout Error: execution exceeded time limit'', False)"
  by (simp add: Sandbox_run_def is_alive_def scenario_env_def scenario_worker_def)

text \<open>
  C3, amended. If the worker is still running when the deadline has passed,
  \<open>Sandbox.run\<close> terminates it and returns exactly the pair
  ("Timeout Error: Code execution exceeded time limit", False).
\<close>

theorem sandbox_run_timeout:
  "is_alive (worker E program fn x) t \<Longrightarrow>
   Sandbox_run E program fn x t =
     (Inr (PyStr ''Timeout Error: Code execution exceeded time limit'', False), Terminated)"
  by (simp add: Sandbox_run_def)

theorem sandbox_run_timeout_witness:
  "is_alive (worker scenario_env loop_program ''run'' 0) 1 \<and>
   Sandbox_run scenario_env loop_program ''run'' 0 1 =
     (Inr (PyStr ''Timeout Error: Code execution exceeded time limit'', False), Terminated)"
proof -
  have alive: "is_alive (worker scenario_env loop_program ''run'' 0) 1"
    by (simp add: is_alive_def scenario_env_def scenario_worker_def)
  from alive sandbox_run_timeout [OF alive] show ?thesis by simp
qed

section \<open>The body recoverer\<close>

subsection \<open>Lines of a text\<close>










lemmas text_eval = cut_at_line_def splitlines_def slice_to_def is_linebreak_def fake_header_def

subsection \<open>Termination of the truncation loop\<close>















subsection \<open>The malformed trailing fragment\<close>

text \<open>
  C8 as stated fails: the lines of the fragment \<open>"return 1\nif True\n"\<close> are not
  indented, the parser rejects the candidate at its line 2, and nothing is recovered.
\<close>

theorem trim_malformed_fragment_counterexample:
  "trim_function_body scenario_parse ''return 1\<newline>if True\<newline>''
     \<noteq> Some (Inr ''return 1\<newline>\<newline>'')"
  by (simp add: trim_function_body_def parse_loop.simps scenario_parse_def text_eval)

text \<open>
  C8, amended. With a parser that answers as CPython does on the five texts involved,
  body recovery returns the empty text for \<open>"return 1\nif True\n"\<close>, and for the
  same fragment indented as a function body, \<open>"  return 1\n  if True\n"\<close>, it returns
  exactly \<open>"  return 1\n\n"\<close>.
\<close>

theorem trim_malformed_fragment:
  assumes "parse (fake_header @ ''return 1\<newline>if True\<newline>'') = SyntaxError (Some 2)"
    and "parse ''def fake_function_header():'' = SyntaxError (Some 1)"
    and "parse [] = Parsed t0"
    and "parse (fake_header @ ''  return 1\<newline>  if True\<newline>'') = SyntaxError (Some 3)"
    and "parse (fake_header @ ''  return 1'') = Parsed t"
    and "visit ''fake_function_header'' None t = Some 2"
  shows "trim_function_body parse ''return 1\<newline>if True\<newline>'' = Some (Inr [])
       \<and> trim_function_body parse ''  return 1\<newline>  if True\<newline>''
           = Some (Inr ''  return 1\<newline>\<newline>'')"
proof -
  have l1: "parse_loop parse [] = Some (Inr ([], t0))"
    by (subst parse_loop.simps) (simp add: assms(3))
  have "cut_at_line ''def fake_function_header():'' 1 = []"
    by (simp add: text_eval)
  then have l2: "parse_loop parse ''def fake_function_header():'' = Some (Inr ([], t0))"
    by (subst parse_loop.simps) (simp add: assms(2) l1)
  have "cut_at_line (fake_header @ ''return 1\<newline>if True\<newline>'') 2 = ''def fake_function_header():''"
    by (simp add: text_eval)
  then have l3: "parse_loop parse (fake_header @ ''return 1\<newline>if True\<newline>'') = Some (Inr ([], t0))"
    by (subst parse_loop.simps) (simp add: assms(1) l2)
  have l4: "parse_loop parse (fake_header @ ''  return 1'') = Some (Inr (fake_header @ ''  return 1'', t))"
    by (subst parse_loop.simps) (simp add: assms(5))
  have "cut_at_line (fake_header @ ''  return 1\<newline>  if True\<newline>'') 3 = fake_header @ ''  return 1''"
    by (simp add: text_eval)
  then have l5: "parse_loop parse (fake_header @ ''  return 1\<newline>  if True\<newline>'')
         = Some (Inr (fake_header @ ''  return 1'', t))"
    by (subst parse_loop.simps) (simp add: assms(4) l4)
  have "join_nl (take (2 - 1) (drop 1 (splitlines (fake_header @ ''  return 1'')))) = ''  return 1''"
    by (simp add: text_eval)
  with l3 l5 assms(6) show ?thesis
    by (simp add: trim_function_body_def function_end_line_def fake_header_def)
qed

theorem trim_malformed_fragment_witness:
  "trim_function_body scenario_parse ''return 1\<newline>if True\<newline>'' = Some (Inr [])
   \<and> trim_function_body scenario_parse ''  return 1\<newline>  if True\<newline>''
       = Some (Inr ''  return 1\<newline>\<newline>'')"
  using trim_malformed_fragment [of scenario_parse "Node None []" one_line_tree]
  by (simp add: scenario_parse_def fake_header_def one_line_tree_def)

section \<open>The loop over the test inputs\<close>

lemma run_inputs_step:
  "run_inputs E ev program (x # rest) sc ws =
     (case fst (Sandbox_run E program (function_to_run ev) x (timeout_seconds ev)) of
        Inl e \<Rightarrow> (Inl e, ws @ [run_ended E ev program x])
      | Inr r \<Rightarrow>
          if passes_filter E ev program x \<and> \<not> is_int_or_float (run_output E ev program x)
          then (Inl (ValueError ''@function.run did not return an int/float score.''),
                ws @ [run_ended E ev program x])
          else run_inputs E ev program rest (score_step E ev program x sc)
                 (ws @ [run_ended E ev program x]))"
  by (cases "Sandbox_run E program (function_to_run ev) x (timeout_seconds ev)")
     (auto simp: passes_filter_def run_output_def run_ended_def score_step_def split: sum.splits)

lemma run_inputs_append:
  "run_inputs E ev program (pre @ rest) sc ws =
     (case run_inputs E ev program pre sc ws of
        (Inl e, ws') \<Rightarrow> (Inl e, ws')
      | (Inr sc', ws') \<Rightarrow> run_inputs E ev program rest sc' ws')"
proof (induction pre arbitrary: sc ws)
  case Nil
  then show ?case by simp
next
  case (Cons x pre)
  show ?case
  proof (cases "fst (Sandbox_run E program (function_to_run ev) x (timeout_seconds ev))")
    case (Inl e)
    then show ?thesis unfolding append_Cons run_inputs_step by simp
  next
    case (Inr r)
    show ?thesis
    proof (cases "passes_filter E ev program x \<and> \<not> is_int_or_float (run_output E ev program x)")
      case True
      with Inr show ?thesis unfolding append_Cons run_inputs_step by simp
    next
      case False
      with Inr show ?thesis unfolding append_Cons run_inputs_step
        by (simp only: Cons.IH sum.case if_False)
    qed
  qed
qed

lemma run_inputs_returns:
  "run_inputs E ev program xs sc ws = (Inr sc', ws') \<Longrightarrow>
     sc' = fold (score_step E ev program) xs sc
     \<and> ws' = ws @ map (run_ended E ev program) xs
     \<and> (\<forall>x \<in> set xs. passes_filter E ev program x \<longrightarrow> is_int_or_float (run_output E ev program x))"
proof (induction xs arbitrary: sc ws)
  case Nil
  then show ?case by simp
next
  case (Cons x xs)
  from Cons.prems have
    ok: "\<not> (passes_filter E ev program x \<and> \<not> is_int_or_float (run_output E ev program x))"
    and rest: "run_inputs E ev program xs (score_step E ev program x sc)
                 (ws @ [run_ended E ev program x]) = (Inr sc', ws')"
    unfolding run_inputs_step by (auto split: sum.splits if_splits)
  from Cons.IH [OF rest] ok show ?case by auto
qed

lemma keys_score_step:
  "fst ` set (score_step E ev program x sc)
     = fst ` set sc \<union> (if passes_filter E ev program x then {py_str E x} else {})"
  by (simp add: score_step_def dom_update)

lemma map_of_score_step:
  "map_of (score_step E ev program x sc) k
     = (if passes_filter E ev program x \<and> py_str E x = k
        then Some (run_output E ev program x) else map_of sc k)"
  by (simp add: score_step_def update_conv')

lemma keys_fold_score_step:
  "fst ` set (fold (score_step E ev program) xs sc)
     = fst ` set sc \<union> py_str E ` {x \<in> set xs. passes_filter E ev program x}"
proof (induction xs arbitrary: sc)
  case Nil
  then show ?case by simp
next
  case (Cons x xs)
  have "fst ` set (fold (score_step E ev program) (x # xs) sc)
        = fst ` set (score_step E ev program x sc)
          \<union> py_str E ` {x \<in> set xs. passes_filter E ev program x}"
    by (simp add: Cons.IH)
  also have "\<dots> = fst ` set sc \<union> py_str E ` {y \<in> set (x # xs). passes_filter E ev program y}"
    unfolding keys_score_step by auto
  finally show ?case .
qed

lemma fold_score_step_nonempty:
  "fold (score_step E ev program) xs [] \<noteq> [] \<longleftrightarrow> (\<exists>x \<in> set xs. passes_filter E ev program x)"
proof -
  have "fold (score_step E ev program) xs [] \<noteq> [] \<longleftrightarrow> fst ` set (fold (score_step E ev program) xs []) \<noteq> {}"
    by simp
  also have "\<dots> \<longleftrightarrow> (\<exists>x \<in> set xs. passes_filter E ev program x)"
    unfolding keys_fold_score_step by auto
  finally show ?thesis .
qed

lemma map_of_fold_score_step_other:
  "\<forall>y \<in> set xs. py_str E y = k \<longrightarrow> \<not> passes_filter E ev program y \<Longrightarrow>
   map_of (fold (score_step E ev program) xs sc) k = map_of sc k"
proof (induction xs arbitrary: sc)
  case Nil
  then show ?case by simp
next
  case (Cons x xs)
  then have "map_of (fold (score_step E ev program) xs (score_step E ev program x sc)) k
             = map_of (score_step E ev program x sc) k"
    by simp
  also have "\<dots> = map_of sc k" using Cons.prems by (auto simp: map_of_score_step)
  finally show ?case by simp
qed

lemma map_of_fold_score_step_last:
  assumes "passes_filter E ev program x"
    and "\<forall>y \<in> set post. py_str E y = py_str E x \<longrightarrow> \<not> passes_filter E ev program y"
  shows "map_of (fold (score_step E ev program) (pre @ x # post) sc) (py_str E x)
           = Some (run_output E ev program x)"
  using assms by (simp add: map_of_fold_score_step_other map_of_score_step)

lemma analyse_assembled:
  assumes "sample_to_program E (store s) sample version (template ev) (function_to_evolve ev)
             = Some (Inr (new_function, program), h)"
  shows "analyse E ev s sample island version =
     (case run_inputs E ev program (inputs ev) [] (workers s) of
        (Inl e, ws) \<Rightarrow> Some (Inl e, s\<lparr>store := h, workers := ws\<rparr>)
      | (Inr sc, ws) \<Rightarrow>
          if sc \<noteq> []
          then Some (Inr (), s\<lparr>store := h, workers := ws,
                        registered := registered s @ [(new_function, island, sc)]\<rparr>)
          else Some (Inr (), s\<lparr>store := h, workers := ws\<rparr>))"
  by (simp add: analyse_def assms)

lemma analyse_returns:
  assumes asm: "sample_to_program E (store s) sample version (template ev) (function_to_evolve ev)
             = Some (Inr (new_function, program), h)"
    and ret: "analyse E ev s sample island version = Some (Inr (), s')"
  shows "forwarded s s' =
           (if \<exists>x \<in> set (inputs ev). passes_filter E ev program x
            then [(new_function, island, fold (score_step E ev program) (inputs ev) [])] else [])"
    and "\<forall>x \<in> set (inputs ev). passes_filter E ev program x \<longrightarrow> is_int_or_float (run_output E ev program x)"
    and "workers s' = workers s @ map (run_ended E ev program) (inputs ev)"
proof -
  obtain sc ws where run: "run_inputs E ev program (inputs ev) [] (workers s) = (Inr sc, ws)"
    using ret unfolding analyse_assembled [OF asm]
    by (auto split: prod.splits sum.splits if_splits)
  from run_inputs_returns [OF run] have sc: "sc = fold (score_step E ev program) (inputs ev) []"
    and ws: "ws = workers s @ map (run_ended E ev program) (inputs ev)"
    and num: "\<forall>x \<in> set (inputs ev). passes_filter E ev program x \<longrightarrow> is_int_or_float (run_output E ev program x)"
    by simp_all
  from num show "\<forall>x \<in> set (inputs ev). passes_filter E ev program x \<longrightarrow> is_int_or_float (run_output E ev program x)" .
  have ne: "sc \<noteq> [] \<longleftrightarrow> (\<exists>x \<in> set (inputs ev). passes_filter E ev program x)"
    unfolding sc by (rule fold_score_step_nonempty)
  show "forwarded s s' =
           (if \<exists>x \<in> set (inputs ev). passes_filter E ev program x
            then [(new_function, island, fold (score_step E ev program) (inputs ev) [])] else [])"
    using ret ne sc unfolding analyse_assembled [OF asm] run
    by (auto simp: forwarded_def split: if_splits)
  show "workers s' = workers s @ map (run_ended E ev program) (inputs ev)"
    using ret ws unfolding analyse_assembled [OF asm] run
    by (auto split: if_splits)
qed

lemma analyse_raises:
  "analyse E ev s sample island version = Some (Inl e, s') \<Longrightarrow> registered s' = registered s"
  by (auto simp: analyse_def split: option.splits sum.splits prod.splits if_splits)

lemma analyse_total_after_assembly:
  assumes "sample_to_program E (store s) sample version (template ev) (function_to_evolve ev)
             = Some (Inr (new_function, program), h)"
  shows "\<exists>r s'. analyse E ev s sample island version = Some (r, s')"
  unfolding analyse_assembled [OF assms]
  by (auto split: prod.splits sum.splits)

lemma analyse_none_pass:
  assumes asm: "sample_to_program E (store s) sample version (template ev) (function_to_evolve ev)
             = Some (Inr (new_function, program), h)"
    and none: "\<forall>x \<in> set (inputs ev). \<not> passes_filter E ev program x"
    and res: "analyse E ev s sample island version = Some (r, s')"
  shows "forwarded s s' = []"
proof (cases r)
  case (Inl e)
  with res have "registered s' = registered s" by (simp add: analyse_raises)
  then show ?thesis by (simp add: forwarded_def)
next
  case (Inr u)
  with res have "analyse E ev s sample island version = Some (Inr (), s')" by simp
  from analyse_returns(1) [OF asm this] none show ?thesis by simp
qed

lemma calls_ancestor_in_iff:
  "calls_ancestor_in fte names \<longleftrightarrow> (\<exists>nm \<in> set names. startswith nm (fte @ ''_v''))"
  by (induction names) auto

lemma passes_filter_iff:
  "passes_filter E ev program x \<longleftrightarrow>
     fst (Sandbox_run E program (function_to_run ev) x (timeout_seconds ev))
        = Inr (run_output E ev program x, True)
     \<and> \<not> (\<exists>nm \<in> set (get_functions_called E program). startswith nm (function_to_evolve ev @ ''_v''))
     \<and> run_output E ev program x \<noteq> PyNone"
  by (auto simp: passes_filter_def run_output_def calls_ancestor_def calls_ancestor_in_iff
      split: sum.splits)

lemma run_inputs_all_fine:
  "\<forall>y \<in> set pre. (\<exists>r. fst (Sandbox_run E program (function_to_run ev) y (timeout_seconds ev)) = Inr r)
        \<and> (passes_filter E ev program y \<longrightarrow> is_int_or_float (run_output E ev program y)) \<Longrightarrow>
   run_inputs E ev program pre sc ws
     = (Inr (fold (score_step E ev program) pre sc), ws @ map (run_ended E ev program) pre)"
proof (induction pre arbitrary: sc ws)
  case Nil
  then show ?case by simp
next
  case (Cons y pre)
  from Cons.prems obtain r where
    r: "fst (Sandbox_run E program (function_to_run ev) y (timeout_seconds ev)) = Inr r"
    and ok: "\<not> (passes_filter E ev program y \<and> \<not> is_int_or_float (run_output E ev program y))"
    by auto
  have "run_inputs E ev program (y # pre) sc ws
        = run_inputs E ev program pre (score_step E ev program y sc) (ws @ [run_ended E ev program y])"
    unfolding run_inputs_step using r ok by auto
  also have "\<dots> = (Inr (fold (score_step E ev program) pre (score_step E ev program y sc)),
                    (ws @ [run_ended E ev program y]) @ map (run_ended E ev program) pre)"
    using Cons.prems by (intro Cons.IH) simp
  finally show ?case by simp
qed

lemma passes_filter_returns:
  "passes_filter E ev program x \<Longrightarrow>
   \<exists>r. fst (Sandbox_run E program (function_to_run ev) x (timeout_seconds ev)) = Inr r"
  by (auto simp: passes_filter_def split: sum.splits)

lemma run_inputs_violation:
  assumes "passes_filter E ev program x" and "\<not> is_int_or_float (run_output E ev program x)"
  shows "run_inputs E ev program (x # post) sc ws
         = (Inl (ValueError ''@function.run did not return an int/float score.''),
            ws @ [run_ended E ev program x])"
  using passes_filter_returns [OF assms(1)] assms unfolding run_inputs_step by auto

section \<open>The concrete environment, evaluated\<close>

lemma scenario_trim:
  assumes "scenario_parse (fake_header @ b) = Parsed one_line_tree" and "b \<noteq> []"
    and "splitlines (fake_header @ b) = [''def fake_function_header():'', b]"
  shows "trim_function_body scenario_parse b = Some (Inr (b @ ''\<newline>\<newline>''))"
proof -
  have "parse_loop scenario_parse (fake_header @ b) = Some (Inr (fake_header @ b, one_line_tree))"
    by (subst parse_loop.simps) (simp add: assms(1))
  moreover have "fake_header @ b \<noteq> []" by (simp add: fake_header_def)
  moreover have "visit ''fake_function_header'' None one_line_tree = Some 2"
    by (simp add: one_line_tree_def)
  ultimately show ?thesis
    using assms(2,3) by (simp add: trim_function_body_def function_end_line_def)
qed

lemma scenario_deepcopy:
  "length h = 3 \<Longrightarrow> deepcopy h scenario_template
     = (\<lparr>preface = [], program_functions = [3, 4, 5]\<rparr>, h @ [h ! 0, h ! 1, h ! 2])"
  by (simp add: deepcopy_def scenario_template_def)

lemma scenario_sample_to_program:
  assumes "trim_function_body scenario_parse b = Some (Inr b')"
  shows "sample_to_program scenario_env scenario_store b None scenario_template ''f''
         = Some (Inr (4, scenario_program b'),
                 scenario_store @ [fn_validate, fn_f\<lparr>body := b'\<rparr>, fn_run])"
proof -
  have dc: "deepcopy [fn_validate, fn_f, fn_run] scenario_template
     = (\<lparr>preface = [], program_functions = [3, 4, 5]\<rparr>,
        [fn_validate, fn_f, fn_run, fn_validate, fn_f, fn_run])"
    by (simp add: scenario_deepcopy)
  have gf: "get_function [fn_validate, fn_f, fn_run, fn_validate, fn_f, fn_run]
              \<lparr>preface = [], program_functions = [3, 4, 5]\<rparr> ''f'' = Inr 4"
    by (simp add: get_function_def fn_validate_def fn_f_def fn_run_def)
  show ?thesis
    by (simp add: sample_to_program_def assms scenario_env_def scenario_store_def dc gf
        program_text_def functions_of_def scenario_program_def)
qed

lemma scenario_double:
  "sample_to_program scenario_env scenario_store ''  return x * 2'' None scenario_template ''f''
         = Some (Inr (4, scenario_program ''  return x * 2\<newline>\<newline>''),
                 scenario_store @ [fn_validate, fn_f\<lparr>body := ''  return x * 2\<newline>\<newline>''\<rparr>, fn_run])"
proof -
  have "trim_function_body scenario_parse ''  return x * 2'' = Some (Inr (''  return x * 2'' @ ''\<newline>\<newline>''))"
    by (rule scenario_trim) (simp_all add: scenario_parse_def text_eval)
  then show ?thesis using scenario_sample_to_program by simp
qed

lemma scenario_programs_differ:
  "scenario_program b = scenario_program b' \<longleftrightarrow> b = b'"
  by (simp add: scenario_program_def scenario_render_def function_text_def fn_validate_def fn_f_def fn_run_def)

lemma scenario_program_not_special:
  "scenario_program b \<noteq> loop_program" "scenario_program b \<noteq> exit_program"
  by (simp_all add: scenario_program_def scenario_render_def function_text_def fn_validate_def loop_program_def exit_program_def)

lemma scenario_run_double:
  "Sandbox_run scenario_env (scenario_program ''  return x * 2\<newline>\<newline>'') ''run'' x 30
     = (Inr (PyInt (x * 2), True), Exited)"
  by (simp add: Sandbox_run_def is_alive_def sandbox_target_def scenario_env_def scenario_worker_def
      scenario_program_not_special scenario_programs_differ)

lemma scenario_called_double:
  "get_functions_called scenario_env (scenario_program ''  return x * 2\<newline>\<newline>'') = [''f'']"
  by (simp add: scenario_env_def scenario_called_def scenario_programs_differ)

lemma str_int_21: "str_int 21 = ''21''"
  by (simp add: str_int_def)

lemma scenario_assembly:
  assumes "scenario_parse (fake_header @ b) = Parsed one_line_tree" and "b \<noteq> []"
    and "splitlines (fake_header @ b) = [''def fake_function_header():'', b]"
  shows "sample_to_program scenario_env (store scenario_state) b None
           (template (scenario_evaluator xs)) (function_to_evolve (scenario_evaluator xs))
         = Some (Inr (4, scenario_program (b @ ''\<newline>\<newline>'')),
                 scenario_store @ [fn_validate, fn_f\<lparr>body := b @ ''\<newline>\<newline>''\<rparr>, fn_run])"
  using scenario_sample_to_program [OF scenario_trim [OF assms]]
  by (simp add: scenario_state_def scenario_evaluator_def)

lemma scenario_run_validate:
  "Sandbox_run scenario_env (scenario_program ''  return f_validate(x) + 1\<newline>\<newline>'') ''run'' x 30
     = (Inr (PyInt (x + 1), True), Exited)"
  by (simp add: Sandbox_run_def is_alive_def sandbox_target_def scenario_env_def scenario_worker_def
      scenario_program_not_special scenario_programs_differ)

lemma scenario_run_str:
  "Sandbox_run scenario_env (scenario_program ''  return x * 2 if x < 2 else str(x)\<newline>\<newline>'') ''run'' x 30
     = (Inr (if x < 2 then PyInt (x * 2) else PyStr (str_int x), True), Exited)"
  by (simp add: Sandbox_run_def is_alive_def sandbox_target_def scenario_env_def scenario_worker_def
      scenario_program_not_special scenario_programs_differ)

lemma scenario_run_bool:
  "Sandbox_run scenario_env (scenario_program ''  return x > 0\<newline>\<newline>'') ''run'' x 30
     = (Inr (PyBool (x > 0), True), Exited)"
  by (simp add: Sandbox_run_def is_alive_def sandbox_target_def scenario_env_def scenario_worker_def
      scenario_program_not_special scenario_programs_differ)

lemma scenario_called_eval:
  "get_functions_called scenario_env (scenario_program ''  return f_validate(x) + 1\<newline>\<newline>'') = [''f_validate'', ''f'']"
  "get_functions_called scenario_env (scenario_program ''  return x * 2 if x < 2 else str(x)\<newline>\<newline>'') = [''str'', ''f'']"
  "get_functions_called scenario_env (scenario_program ''  return x > 0\<newline>\<newline>'') = [''f'']"
  by (simp_all add: scenario_env_def scenario_called_def scenario_programs_differ)

lemma scenario_evaluator_simps:
  "function_to_run (scenario_evaluator xs) = ''run''"
  "function_to_evolve (scenario_evaluator xs) = ''f''"
  "timeout_seconds (scenario_evaluator xs) = 30"
  "inputs (scenario_evaluator xs) = xs"
  "template (scenario_evaluator xs) = scenario_template"
  by (simp_all add: scenario_evaluator_def)

lemma scenario_state_simps:
  "registered scenario_state = []" "workers scenario_state = []" "store scenario_state = scenario_store"
  by (simp_all add: scenario_state_def)

lemma scenario_py_str: "py_str scenario_env = str_int"
  by (simp add: scenario_env_def)

lemma scenario_assembly_double:
  "sample_to_program scenario_env (store scenario_state) ''  return x * 2'' None
           (template (scenario_evaluator xs)) (function_to_evolve (scenario_evaluator xs))
         = Some (Inr (4, scenario_program ''  return x * 2\<newline>\<newline>''),
                 scenario_store @ [fn_validate, fn_f\<lparr>body := ''  return x * 2\<newline>\<newline>''\<rparr>, fn_run])"
  using scenario_assembly [of "''  return x * 2''" xs]
  by (simp add: scenario_parse_def text_eval)

lemma scenario_assembly_str:
  "sample_to_program scenario_env (store scenario_state) ''  return x * 2 if x < 2 else str(x)'' None
           (template (scenario_evaluator xs)) (function_to_evolve (scenario_evaluator xs))
         = Some (Inr (4, scenario_program ''  return x * 2 if x < 2 else str(x)\<newline>\<newline>''),
                 scenario_store @ [fn_validate, fn_f\<lparr>body := ''  return x * 2 if x < 2 else str(x)\<newline>\<newline>''\<rparr>, fn_run])"
  using scenario_assembly [of "''  return x * 2 if x < 2 else str(x)''" xs]
  by (simp add: scenario_parse_def text_eval)

lemma scenario_assembly_bool:
  "sample_to_program scenario_env (store scenario_state) ''  return x > 0'' None
           (template (scenario_evaluator xs)) (function_to_evolve (scenario_evaluator xs))
         = Some (Inr (4, scenario_program ''  return x > 0\<newline>\<newline>''),
                 scenario_store @ [fn_validate, fn_f\<lparr>body := ''  return x > 0\<newline>\<newline>''\<rparr>, fn_run])"
  using scenario_assembly [of "''  return x > 0''" xs]
  by (simp add: scenario_parse_def text_eval)

lemmas scenario_eval = scenario_evaluator_simps scenario_state_simps scenario_py_str
  scenario_run_double scenario_run_validate scenario_run_str scenario_run_bool
  scenario_called_double scenario_called_eval calls_ancestor_def startswith_def
  passes_filter_def run_output_def run_ended_def str_int_def

section \<open>Admission of scores and registration\<close>

text \<open>
  C5 as stated fails: here the run on input 1 produces the accepted score 2, the run on
  input 4 returns a string, \<open>analyse\<close> raises, and \<open>register_program\<close> is not called
  although a test input produced an accepted score.
\<close>

theorem register_exactly_when_scores_counterexample:
  "passes_filter scenario_env (scenario_evaluator [1, 4])
     (scenario_program ''  return x * 2 if x < 2 else str(x)\<newline>\<newline>'') 1
   \<and> run_output scenario_env (scenario_evaluator [1, 4])
        (scenario_program ''  return x * 2 if x < 2 else str(x)\<newline>\<newline>'') 1 = PyInt 2
   \<and> map_option fst (sample_to_program scenario_env scenario_store
         ''  return x * 2 if x < 2 else str(x)'' None scenario_template ''f'')
       = Some (Inr (4, scenario_program ''  return x * 2 if x < 2 else str(x)\<newline>\<newline>''))
   \<and> map_option fst (analyse scenario_env (scenario_evaluator [1, 4]) scenario_state
         ''  return x * 2 if x < 2 else str(x)'' None None)
       = Some (Inl (ValueError ''@function.run did not return an int/float score.''))
   \<and> map_option (forwarded scenario_state \<circ> snd) (analyse scenario_env (scenario_evaluator [1, 4])
         scenario_state ''  return x * 2 if x < 2 else str(x)'' None None) = Some []"
proof -
  have an: "analyse scenario_env (scenario_evaluator [1, 4]) scenario_state
              ''  return x * 2 if x < 2 else str(x)'' None None
            = Some (Inl (ValueError ''@function.run did not return an int/float score.''),
                    scenario_state\<lparr>store := scenario_store @ [fn_validate, fn_f\<lparr>body := ''  return x * 2 if x < 2 else str(x)\<newline>\<newline>''\<rparr>, fn_run],
                                   workers := [(1, Exited), (4, Exited)]\<rparr>)"
    unfolding analyse_assembled [OF scenario_assembly_str]
    by (simp add: scenario_eval)
  from an scenario_assembly_str [of "[1, 4]"] show ?thesis
    by (simp add: scenario_eval forwarded_def)
qed

text \<open>
  C5, amended. Once the program is assembled, \<open>analyse\<close> ends. When it returns
  normally it has called \<open>register_program\<close> exactly when some test input passed the
  filter, which is exactly when the score map is not empty: then once, with the evolved
  function, the island and the score map. When every test input fails or is filtered
  out, and when \<open>analyse\<close> raises, \<open>register_program\<close> is not called.
\<close>

theorem register_exactly_when_scores:
  assumes "sample_to_program E (store s) sample version (template ev) (function_to_evolve ev)
             = Some (Inr (new_function, program), h)"
  shows "\<exists>r s'. analyse E ev s sample island version = Some (r, s')
           \<and> (r = Inr () \<longrightarrow>
                forwarded s s' =
                  (if \<exists>x \<in> set (inputs ev). passes_filter E ev program x
                   then [(new_function, island, fold (score_step E ev program) (inputs ev) [])]
                   else [])
                \<and> (fold (score_step E ev program) (inputs ev) [] \<noteq> []
                     \<longleftrightarrow> (\<exists>x \<in> set (inputs ev). passes_filter E ev program x)))
           \<and> ((\<forall>x \<in> set (inputs ev). \<not> passes_filter E ev program x) \<longrightarrow> forwarded s s' = [])
           \<and> (r \<noteq> Inr () \<longrightarrow> forwarded s s' = [])"
proof -
  from analyse_total_after_assembly [OF assms] obtain r s' where
    res: "analyse E ev s sample island version = Some (r, s')" by blast
  have a: "r = Inr () \<longrightarrow>
                forwarded s s' =
                  (if \<exists>x \<in> set (inputs ev). passes_filter E ev program x
                   then [(new_function, island, fold (score_step E ev program) (inputs ev) [])]
                   else [])"
    using analyse_returns(1) [OF assms] res by blast
  have b: "(\<forall>x \<in> set (inputs ev). \<not> passes_filter E ev program x) \<longrightarrow> forwarded s s' = []"
    using analyse_none_pass [OF assms _ res] by blast
  have c: "r \<noteq> Inr () \<longrightarrow> forwarded s s' = []"
  proof
    assume "r \<noteq> Inr ()"
    then obtain e where "r = Inl e" by (cases r) auto
    with res have "registered s' = registered s" by (simp add: analyse_raises)
    then show "forwarded s s' = []" by (simp add: forwarded_def)
  qed
  from res a b c fold_score_step_nonempty [of E ev program "inputs ev"] show ?thesis by blast
qed

theorem register_exactly_when_scores_witness:
  "\<exists>s'. analyse scenario_env (scenario_evaluator [21]) scenario_state ''  return x * 2'' None None = Some (Inr (), s')
     \<and> forwarded scenario_state s' = [(4, None, [(''21'', PyInt 42)])]"
proof -
  have asm: "sample_to_program scenario_env (store scenario_state) ''  return x * 2'' None
        (template (scenario_evaluator [21])) (function_to_evolve (scenario_evaluator [21]))
         = Some (Inr (4, scenario_program ''  return x * 2\<newline>\<newline>''),
                 scenario_store @ [fn_validate, fn_f\<lparr>body := ''  return x * 2\<newline>\<newline>''\<rparr>, fn_run])"
    using scenario_double by (simp add: scenario_state_def scenario_evaluator_def)
  have pf: "passes_filter scenario_env (scenario_evaluator [21]) (scenario_program ''  return x * 2\<newline>\<newline>'') 21"
    by (simp add: passes_filter_def scenario_evaluator_def scenario_run_double calls_ancestor_def
        scenario_called_double startswith_def)
  have ro: "run_output scenario_env (scenario_evaluator [21]) (scenario_program ''  return x * 2\<newline>\<newline>'') 21 = PyInt 42"
    by (simp add: run_output_def scenario_evaluator_def scenario_run_double)
  from register_exactly_when_scores [OF asm, of None] obtain r s' where
    res: "analyse scenario_env (scenario_evaluator [21]) scenario_state ''  return x * 2'' None None = Some (r, s')"
    and fw: "r = Inr () \<longrightarrow> forwarded scenario_state s' =
                  (if \<exists>x \<in> set (inputs (scenario_evaluator [21])). passes_filter scenario_env (scenario_evaluator [21]) (scenario_program ''  return x * 2\<newline>\<newline>'') x
                   then [(4, None, fold (score_step scenario_env (scenario_evaluator [21]) (scenario_program ''  return x * 2\<newline>\<newline>'')) (inputs (scenario_evaluator [21])) [])]
                   else [])"
    by blast
  have "r = Inr ()"
    using res unfolding analyse_assembled [OF asm]
    by (simp add: scenario_evaluator_def scenario_run_double calls_ancestor_def
        scenario_called_double startswith_def split: if_splits)
  with res fw pf ro show ?thesis
    by (simp add: scenario_evaluator_def score_step_def scenario_env_def str_int_21)
qed

text \<open>
  C2 as stated fails: the scan of \<open>_calls_ancestor\<close> tests a prefix, not the pattern
  with digits. The program below calls the helper \<open>f_validate\<close>; the run on 21
  succeeds with the number 22, no called name is \<open>f_v\<close> followed by digits, and yet no
  score is forwarded.
\<close>

theorem score_admission_counterexample:
  "map_option fst (analyse scenario_env (scenario_evaluator [21]) scenario_state
       ''  return f_validate(x) + 1'' None None) = Some (Inr ())
   \<and> map_option (forwarded scenario_state \<circ> snd) (analyse scenario_env (scenario_evaluator [21])
       scenario_state ''  return f_validate(x) + 1'' None None) = Some []
   \<and> map_option fst (sample_to_program scenario_env scenario_store ''  return f_validate(x) + 1''
       None scenario_template ''f'')
       = Some (Inr (4, scenario_program ''  return f_validate(x) + 1\<newline>\<newline>''))
   \<and> Sandbox_run scenario_env (scenario_program ''  return f_validate(x) + 1\<newline>\<newline>'') ''run'' 21 30
       = (Inr (PyInt 22, True), Exited)
   \<and> get_functions_called scenario_env (scenario_program ''  return f_validate(x) + 1\<newline>\<newline>'')
       = [''f_validate'', ''f'']
   \<and> \<not> matches_version_pattern ''f'' ''f_validate''
   \<and> \<not> matches_version_pattern ''f'' ''f''
   \<and> is_int_or_float (PyInt 22)"
proof -
  have asm: "sample_to_program scenario_env (store scenario_state) ''  return f_validate(x) + 1'' None
           (template (scenario_evaluator [21])) (function_to_evolve (scenario_evaluator [21]))
         = Some (Inr (4, scenario_program (''  return f_validate(x) + 1'' @ ''\<newline>\<newline>'')),
                 scenario_store @ [fn_validate, fn_f\<lparr>body := ''  return f_validate(x) + 1'' @ ''\<newline>\<newline>''\<rparr>, fn_run])"
    by (rule scenario_assembly) (simp_all add: scenario_parse_def text_eval)
  have an: "analyse scenario_env (scenario_evaluator [21]) scenario_state
       ''  return f_validate(x) + 1'' None None
     = Some (Inr (), scenario_state\<lparr>store := scenario_store @ [fn_validate, fn_f\<lparr>body := ''  return f_validate(x) + 1\<newline>\<newline>''\<rparr>, fn_run],
                                     workers := [(21, Exited)]\<rparr>)"
    unfolding analyse_assembled [OF asm]
    by (simp add: scenario_evaluator_simps scenario_state_simps scenario_run_validate
        calls_ancestor_def scenario_called_eval startswith_def)
  have pat: "\<not> matches_version_pattern ''f'' ''f_validate''" "\<not> matches_version_pattern ''f'' ''f''"
    by (simp_all add: matches_version_pattern_def startswith_def is_digit_def)
  from an asm pat show ?thesis
    using scenario_run_validate [of 21]
    by (simp add: forwarded_def scenario_evaluator_simps scenario_state_simps scenario_called_eval)
qed

text \<open>
  C2, amended. When \<open>analyse\<close> returns normally, a forwarded score map has an entry
  under a key exactly when some configured test input has that string representation,
  its run returned success, no called name of the assembled program starts with
  \<open><function_to_evolve>_v\<close>, and its output is not \<open>None\<close> and is a number.
\<close>

theorem score_admission:
  assumes asm: "sample_to_program E (store s) sample version (template ev) (function_to_evolve ev)
             = Some (Inr (new_function, program), h)"
    and ret: "analyse E ev s sample island version = Some (Inr (), s')"
  shows "(\<exists>f i m. (f, i, m) \<in> set (forwarded s s') \<and> k \<in> fst ` set m) \<longleftrightarrow>
         (\<exists>x \<in> set (inputs ev). py_str E x = k
            \<and> fst (Sandbox_run E program (function_to_run ev) x (timeout_seconds ev))
                 = Inr (run_output E ev program x, True)
            \<and> \<not> (\<exists>nm \<in> set (get_functions_called E program).
                     startswith nm (function_to_evolve ev @ ''_v''))
            \<and> run_output E ev program x \<noteq> PyNone
            \<and> is_int_or_float (run_output E ev program x))"
proof -
  have num: "\<forall>x \<in> set (inputs ev). passes_filter E ev program x \<longrightarrow> is_int_or_float (run_output E ev program x)"
    by (rule analyse_returns(2) [OF asm ret])
  have "(\<exists>f i m. (f, i, m) \<in> set (forwarded s s') \<and> k \<in> fst ` set m)
        \<longleftrightarrow> (\<exists>x \<in> set (inputs ev). passes_filter E ev program x \<and> py_str E x = k)"
  proof (cases "\<exists>x \<in> set (inputs ev). passes_filter E ev program x")
    case True
    then have "forwarded s s' = [(new_function, island, fold (score_step E ev program) (inputs ev) [])]"
      using analyse_returns(1) [OF asm ret] by simp
    then have "(\<exists>f i m. (f, i, m) \<in> set (forwarded s s') \<and> k \<in> fst ` set m)
        \<longleftrightarrow> k \<in> fst ` set (fold (score_step E ev program) (inputs ev) [])"
      by simp
    also have "\<dots> \<longleftrightarrow> (\<exists>x \<in> set (inputs ev). passes_filter E ev program x \<and> py_str E x = k)"
      unfolding keys_fold_score_step by auto
    finally show ?thesis .
  next
    case False
    then have "forwarded s s' = []"
      using analyse_returns(1) [OF asm ret] by simp
    with False show ?thesis by auto
  qed
  also have "\<dots> \<longleftrightarrow> (\<exists>x \<in> set (inputs ev). py_str E x = k
            \<and> fst (Sandbox_run E program (function_to_run ev) x (timeout_seconds ev))
                 = Inr (run_output E ev program x, True)
            \<and> \<not> (\<exists>nm \<in> set (get_functions_called E program).
                     startswith nm (function_to_evolve ev @ ''_v''))
            \<and> run_output E ev program x \<noteq> PyNone
            \<and> is_int_or_float (run_output E ev program x))"
    using num passes_filter_iff [of E ev program] by blast
  finally show ?thesis .
qed

theorem score_admission_witness:
  "\<exists>s'. analyse scenario_env (scenario_evaluator [21]) scenario_state ''  return x * 2'' None None
          = Some (Inr (), s')
     \<and> (\<exists>f i m. (f, i, m) \<in> set (forwarded scenario_state s') \<and> ''21'' \<in> fst ` set m)
     \<and> fst (Sandbox_run scenario_env (scenario_program ''  return x * 2\<newline>\<newline>'') ''run'' 21 30)
         = Inr (PyInt 42, True)"
proof -
  have "\<exists>r s'. analyse scenario_env (scenario_evaluator [21]) scenario_state ''  return x * 2'' None None
          = Some (r, s')"
    by (rule analyse_total_after_assembly [OF scenario_assembly_double])
  then obtain r s' where
    res: "analyse scenario_env (scenario_evaluator [21]) scenario_state ''  return x * 2'' None None
          = Some (r, s')" by blast
  have "r = Inr ()"
    using res unfolding analyse_assembled [OF scenario_assembly_double]
    by (simp add: scenario_eval split: if_splits)
  with res have ret: "analyse scenario_env (scenario_evaluator [21]) scenario_state ''  return x * 2'' None None
          = Some (Inr (), s')" by simp
  have "\<exists>x \<in> set (inputs (scenario_evaluator [21])). py_str scenario_env x = ''21''
            \<and> fst (Sandbox_run scenario_env (scenario_program ''  return x * 2\<newline>\<newline>'')
                      (function_to_run (scenario_evaluator [21])) x (timeout_seconds (scenario_evaluator [21])))
                 = Inr (run_output scenario_env (scenario_evaluator [21]) (scenario_program ''  return x * 2\<newline>\<newline>'') x, True)
            \<and> \<not> (\<exists>nm \<in> set (get_functions_called scenario_env (scenario_program ''  return x * 2\<newline>\<newline>'')).
                     startswith nm (function_to_evolve (scenario_evaluator [21]) @ ''_v''))
            \<and> run_output scenario_env (scenario_evaluator [21]) (scenario_program ''  return x * 2\<newline>\<newline>'') x \<noteq> PyNone
            \<and> is_int_or_float (run_output scenario_env (scenario_evaluator [21]) (scenario_program ''  return x * 2\<newline>\<newline>'') x)"
    by (simp add: scenario_eval)
  with score_admission [OF scenario_assembly_double ret, of "''21''"]
  have "\<exists>f i m. (f, i, m) \<in> set (forwarded scenario_state s') \<and> ''21'' \<in> fst ` set m"
    by blast
  with ret show ?thesis by (auto simp: scenario_run_double)
qed

text \<open>
  C6. If the output for some test input passes the three checks of the filter and is
  not an int or a float, \<open>analyse\<close> raises and registers nothing; when no earlier
  input made it raise, the exception is the \<open>ValueError\<close> of the contract and no
  worker was started for a later input.
\<close>

theorem non_numeric_score_raises:
  assumes asm: "sample_to_program E (store s) sample version (template ev) (function_to_evolve ev)
             = Some (Inr (new_function, program), h)"
    and split: "inputs ev = pre @ x # post"
    and pass: "passes_filter E ev program x"
    and nonnum: "\<not> is_int_or_float (run_output E ev program x)"
  shows "\<exists>e s'. analyse E ev s sample island version = Some (Inl e, s')
           \<and> forwarded s s' = []
           \<and> ((\<forall>y \<in> set pre.
                  (\<exists>r. fst (Sandbox_run E program (function_to_run ev) y (timeout_seconds ev)) = Inr r)
                  \<and> (passes_filter E ev program y \<longrightarrow> is_int_or_float (run_output E ev program y)))
                \<longrightarrow> e = ValueError ''@function.run did not return an int/float score.''
                  \<and> workers s' = workers s @ map (run_ended E ev program) (pre @ [x]))"
proof -
  obtain res ws where run: "run_inputs E ev program (inputs ev) [] (workers s) = (res, ws)"
    by (cases "run_inputs E ev program (inputs ev) [] (workers s)") auto
  have "\<exists>e. res = Inl e"
  proof (cases "run_inputs E ev program pre [] (workers s)")
    case (Pair r1 w1)
    show ?thesis
    proof (cases r1)
      case (Inl e)
      with Pair run show ?thesis unfolding split run_inputs_append by auto
    next
      case (Inr sc1)
      with Pair run run_inputs_violation [OF pass nonnum] show ?thesis
        unfolding split run_inputs_append by auto
    qed
  qed
  then obtain e where e: "res = Inl e" by blast
  have an: "analyse E ev s sample island version = Some (Inl e, s\<lparr>store := h, workers := ws\<rparr>)"
    unfolding analyse_assembled [OF asm] run e by simp
  have fw: "forwarded s (s\<lparr>store := h, workers := ws\<rparr>) = []"
    by (simp add: forwarded_def)
  have imm: "(\<forall>y \<in> set pre.
                  (\<exists>r. fst (Sandbox_run E program (function_to_run ev) y (timeout_seconds ev)) = Inr r)
                  \<and> (passes_filter E ev program y \<longrightarrow> is_int_or_float (run_output E ev program y)))
                \<longrightarrow> e = ValueError ''@function.run did not return an int/float score.''
                  \<and> workers (s\<lparr>store := h, workers := ws\<rparr>) = workers s @ map (run_ended E ev program) (pre @ [x])"
  proof
    assume fine: "\<forall>y \<in> set pre.
                  (\<exists>r. fst (Sandbox_run E program (function_to_run ev) y (timeout_seconds ev)) = Inr r)
                  \<and> (passes_filter E ev program y \<longrightarrow> is_int_or_float (run_output E ev program y))"
    have "run_inputs E ev program (inputs ev) [] (workers s)
          = (Inl (ValueError ''@function.run did not return an int/float score.''),
             (workers s @ map (run_ended E ev program) pre) @ [run_ended E ev program x])"
      unfolding split run_inputs_append run_inputs_all_fine [OF fine]
      using run_inputs_violation [OF pass nonnum] by simp
    with run e show "e = ValueError ''@function.run did not return an int/float score.''
                  \<and> workers (s\<lparr>store := h, workers := ws\<rparr>) = workers s @ map (run_ended E ev program) (pre @ [x])"
      by simp
  qed
  from an fw imm show ?thesis by blast
qed

theorem non_numeric_score_raises_witness:
  "passes_filter scenario_env (scenario_evaluator [1, 2])
     (scenario_program ''  return x * 2 if x < 2 else str(x)\<newline>\<newline>'') 2
   \<and> \<not> is_int_or_float (run_output scenario_env (scenario_evaluator [1, 2])
          (scenario_program ''  return x * 2 if x < 2 else str(x)\<newline>\<newline>'') 2)
   \<and> (\<exists>s'. analyse scenario_env (scenario_evaluator [1, 2]) scenario_state
              ''  return x * 2 if x < 2 else str(x)'' None None
            = Some (Inl (ValueError ''@function.run did not return an int/float score.''), s')
          \<and> forwarded scenario_state s' = []
          \<and> workers s' = [(1, Exited), (2, Exited)])"
proof -
  have pass: "passes_filter scenario_env (scenario_evaluator [1, 2])
     (scenario_program ''  return x * 2 if x < 2 else str(x)\<newline>\<newline>'') 2"
    by (simp add: scenario_eval)
  have nonnum: "\<not> is_int_or_float (run_output scenario_env (scenario_evaluator [1, 2])
          (scenario_program ''  return x * 2 if x < 2 else str(x)\<newline>\<newline>'') 2)"
    by (simp add: scenario_eval)
  have split: "inputs (scenario_evaluator [1, 2]) = [1] @ 2 # []"
    by (simp add: scenario_eval)
  have fine: "\<forall>y \<in> set [1].
       (\<exists>r. fst (Sandbox_run scenario_env (scenario_program ''  return x * 2 if x < 2 else str(x)\<newline>\<newline>'')
                   (function_to_run (scenario_evaluator [1, 2])) y
                   (timeout_seconds (scenario_evaluator [1, 2]))) = Inr r)
       \<and> (passes_filter scenario_env (scenario_evaluator [1, 2])
             (scenario_program ''  return x * 2 if x < 2 else str(x)\<newline>\<newline>'') y
           \<longrightarrow> is_int_or_float (run_output scenario_env (scenario_evaluator [1, 2])
                  (scenario_program ''  return x * 2 if x < 2 else str(x)\<newline>\<newline>'') y))"
    by (auto simp: scenario_eval)
  from non_numeric_score_raises [OF scenario_assembly_str split pass nonnum, of None] fine
  obtain e s' where
    "analyse scenario_env (scenario_evaluator [1, 2]) scenario_state
              ''  return x * 2 if x < 2 else str(x)'' None None = Some (Inl e, s')"
    "forwarded scenario_state s' = []"
    "e = ValueError ''@function.run did not return an int/float score.''"
    "workers s' = workers scenario_state @ map (run_ended scenario_env (scenario_evaluator [1, 2])
          (scenario_program ''  return x * 2 if x < 2 else str(x)\<newline>\<newline>'')) ([1] @ [2])"
    by blast
  with pass nonnum show ?thesis by (simp add: scenario_eval)
qed

text \<open>
  C9. When \<open>analyse\<close> raises, the database has received no call of
  \<open>register_program\<close> from it, also when earlier inputs of the call had produced
  accepted scores: the partial score map is dropped.
\<close>

theorem raise_leaves_database_untouched:
  "analyse E ev s sample island version = Some (Inl e, s') \<Longrightarrow> registered s' = registered s"
  by (auto simp: analyse_def split: option.splits sum.splits prod.splits if_splits)

theorem raise_leaves_database_untouched_witness:
  "passes_filter scenario_env (scenario_evaluator [1, 3])
     (scenario_program ''  return x * 2 if x < 2 else str(x)\<newline>\<newline>'') 1
   \<and> run_output scenario_env (scenario_evaluator [1, 3])
        (scenario_program ''  return x * 2 if x < 2 else str(x)\<newline>\<newline>'') 1 = PyInt 2
   \<and> (\<exists>s'. analyse scenario_env (scenario_evaluator [1, 3]) scenario_state
              ''  return x * 2 if x < 2 else str(x)'' None None
            = Some (Inl (ValueError ''@function.run did not return an int/float score.''), s')
          \<and> registered s' = registered scenario_state)"
proof -
  have an: "analyse scenario_env (scenario_evaluator [1, 3]) scenario_state
              ''  return x * 2 if x < 2 else str(x)'' None None
            = Some (Inl (ValueError ''@function.run did not return an int/float score.''),
                    scenario_state\<lparr>store := scenario_store @ [fn_validate, fn_f\<lparr>body := ''  return x * 2 if x < 2 else str(x)\<newline>\<newline>''\<rparr>, fn_run],
                                   workers := [(1, Exited), (3, Exited)]\<rparr>)"
    unfolding analyse_assembled [OF scenario_assembly_str]
    by (simp add: scenario_eval)
  from raise_leaves_database_untouched [OF an] an show ?thesis
    by (simp add: scenario_eval)
qed

text \<open>
  C10. A test input whose run succeeds with \<open>True\<close> or \<open>False\<close> and passes the
  ancestor scan does not make the loop raise: the boolean is stored under the input's
  key and the loop goes on. When \<open>analyse\<close> then returns normally and no later input
  of the same key passes the filter, the forwarded score map holds that boolean.
\<close>

theorem boolean_score_recorded:
  assumes run: "Sandbox_run E program (function_to_run ev) x (timeout_seconds ev)
                  = (Inr (PyBool b, True), ended)"
    and anc: "\<not> calls_ancestor E program (function_to_evolve ev)"
  shows "run_inputs E ev program (x # rest) sc ws
           = run_inputs E ev program rest (AList.update (py_str E x) (PyBool b) sc) (ws @ [(x, ended)])
         \<and> (sample_to_program E (store s) sample version (template ev) (function_to_evolve ev)
               = Some (Inr (new_function, program), h)
             \<and> inputs ev = pre @ x # rest
             \<and> analyse E ev s sample island version = Some (Inr (), s')
             \<and> (\<forall>y \<in> set rest. py_str E y = py_str E x \<longrightarrow> \<not> passes_filter E ev program y)
             \<longrightarrow> (\<exists>m. forwarded s s' = [(new_function, island, m)]
                       \<and> map_of m (py_str E x) = Some (PyBool b)))"
proof -
  have pf: "passes_filter E ev program x" using run anc by (simp add: passes_filter_def)
  have ro: "run_output E ev program x = PyBool b" using run by (simp add: run_output_def)
  have step: "run_inputs E ev program (x # rest) sc ws
           = run_inputs E ev program rest (AList.update (py_str E x) (PyBool b) sc) (ws @ [(x, ended)])"
    using run anc by simp
  have whole: "sample_to_program E (store s) sample version (template ev) (function_to_evolve ev)
               = Some (Inr (new_function, program), h)
             \<and> inputs ev = pre @ x # rest
             \<and> analyse E ev s sample island version = Some (Inr (), s')
             \<and> (\<forall>y \<in> set rest. py_str E y = py_str E x \<longrightarrow> \<not> passes_filter E ev program y)
             \<longrightarrow> (\<exists>m. forwarded s s' = [(new_function, island, m)]
                       \<and> map_of m (py_str E x) = Some (PyBool b))"
  proof
    assume a: "sample_to_program E (store s) sample version (template ev) (function_to_evolve ev)
               = Some (Inr (new_function, program), h)
             \<and> inputs ev = pre @ x # rest
             \<and> analyse E ev s sample island version = Some (Inr (), s')
             \<and> (\<forall>y \<in> set rest. py_str E y = py_str E x \<longrightarrow> \<not> passes_filter E ev program y)"
    then have asm: "sample_to_program E (store s) sample version (template ev) (function_to_evolve ev)
               = Some (Inr (new_function, program), h)"
      and split: "inputs ev = pre @ x # rest"
      and ret: "analyse E ev s sample island version = Some (Inr (), s')"
      and last: "\<forall>y \<in> set rest. py_str E y = py_str E x \<longrightarrow> \<not> passes_filter E ev program y"
      by simp_all
    have "\<exists>y \<in> set (inputs ev). passes_filter E ev program y" using pf split by auto
    with analyse_returns(1) [OF asm ret]
    have fw: "forwarded s s' = [(new_function, island, fold (score_step E ev program) (inputs ev) [])]"
      by simp
    have "map_of (fold (score_step E ev program) (inputs ev) []) (py_str E x) = Some (PyBool b)"
      unfolding split using map_of_fold_score_step_last [OF pf last] ro by simp
    with fw show "\<exists>m. forwarded s s' = [(new_function, island, m)]
                       \<and> map_of m (py_str E x) = Some (PyBool b)" by blast
  qed
  from step whole show ?thesis by blast
qed

theorem boolean_score_recorded_witness:
  "Sandbox_run scenario_env (scenario_program ''  return x > 0\<newline>\<newline>'') ''run'' 21 30
     = (Inr (PyBool True, True), Exited)
   \<and> \<not> calls_ancestor scenario_env (scenario_program ''  return x > 0\<newline>\<newline>'') ''f''
   \<and> (\<exists>s'. analyse scenario_env (scenario_evaluator [21]) scenario_state ''  return x > 0'' None None
            = Some (Inr (), s')
          \<and> forwarded scenario_state s' = [(4, None, [(''21'', PyBool True)])])"
proof -
  have run: "Sandbox_run scenario_env (scenario_program ''  return x > 0\<newline>\<newline>'')
               (function_to_run (scenario_evaluator [21])) 21 (timeout_seconds (scenario_evaluator [21]))
             = (Inr (PyBool True, True), Exited)"
    by (simp add: scenario_eval)
  have anc: "\<not> calls_ancestor scenario_env (scenario_program ''  return x > 0\<newline>\<newline>'')
                 (function_to_evolve (scenario_evaluator [21]))"
    by (simp add: scenario_eval)
  have an: "analyse scenario_env (scenario_evaluator [21]) scenario_state ''  return x > 0'' None None
     = Some (Inr (), scenario_state\<lparr>store := scenario_store @ [fn_validate, fn_f\<lparr>body := ''  return x > 0\<newline>\<newline>''\<rparr>, fn_run],
                                     workers := [(21, Exited)],
                                     registered := [(4, None, [(''21'', PyBool True)])]\<rparr>)"
    unfolding analyse_assembled [OF scenario_assembly_bool]
    by (simp add: scenario_eval)
  have "\<exists>m. forwarded scenario_state (scenario_state\<lparr>store := scenario_store @ [fn_validate, fn_f\<lparr>body := ''  return x > 0\<newline>\<newline>''\<rparr>, fn_run],
                                     workers := [(21, Exited)],
                                     registered := [(4, None, [(''21'', PyBool True)])]\<rparr>) = [(4, None, m)]
          \<and> map_of m (py_str scenario_env 21) = Some (PyBool True)"
    using boolean_score_recorded [OF run anc, of "[]" "[]" "[]" scenario_state "''  return x > 0''" None 4
        "scenario_store @ [fn_validate, fn_f\<lparr>body := ''  return x > 0\<newline>\<newline>''\<rparr>, fn_run]" "[]" None
        "scenario_state\<lparr>store := scenario_store @ [fn_validate, fn_f\<lparr>body := ''  return x > 0\<newline>\<newline>''\<rparr>, fn_run],
                                     workers := [(21, Exited)],
                                     registered := [(4, None, [(''21'', PyBool True)])]\<rparr>"]
      scenario_assembly_bool [of "[21]"] an
    by (simp add: scenario_evaluator_simps)
  with an run anc show ?thesis
    by (auto simp: scenario_eval forwarded_def)
qed

section \<open>The store and the template\<close>

lemma extends_refl: "extends h h"
  by (simp add: extends_def)

lemma extends_trans: "extends h h1 \<Longrightarrow> extends h1 h2 \<Longrightarrow> extends h h2"
  by (auto simp: extends_def)

lemma extends_append: "extends h (h @ xs)"
  by (simp add: extends_def nth_append)

lemma extends_update: "length h \<le> a \<Longrightarrow> extends h h1 \<Longrightarrow> extends h (h1[a := f])"
  by (auto simp: extends_def)

lemma index_of_less: "x \<in> set xs \<Longrightarrow> index_of x xs < length xs"
  by (induction xs) auto

lemma nth_index_of: "x \<in> set xs \<Longrightarrow> xs ! index_of x xs = x"
  by (induction xs) auto

lemma deepcopy_store: "snd (deepcopy h p) = h @ map (\<lambda>r. h ! r) (remdups (program_functions p))"
  by (simp add: deepcopy_def Let_def)

lemma deepcopy_refs:
  "program_functions (fst (deepcopy h p))
     = map (\<lambda>r. length h + index_of r (remdups (program_functions p))) (program_functions p)"
  by (simp add: deepcopy_def Let_def)

lemma deepcopy_fresh:
  "r \<in> set (program_functions (fst (deepcopy h p))) \<Longrightarrow>
   length h \<le> r \<and> r < length (snd (deepcopy h p))"
  by (auto simp: deepcopy_refs deepcopy_store index_of_less)

lemma deepcopy_content:
  assumes "i < length (program_functions p)"
  shows "snd (deepcopy h p) ! (program_functions (fst (deepcopy h p)) ! i)
           = h ! (program_functions p ! i)"
proof -
  let ?rs = "remdups (program_functions p)"
  let ?r = "program_functions p ! i"
  have mem: "?r \<in> set ?rs" using assms by simp
  have "snd (deepcopy h p) ! (program_functions (fst (deepcopy h p)) ! i)
        = (h @ map (\<lambda>r. h ! r) ?rs) ! (length h + index_of ?r ?rs)"
    using assms by (simp add: deepcopy_refs deepcopy_store)
  also have "\<dots> = map (\<lambda>r. h ! r) ?rs ! index_of ?r ?rs"
    by (simp add: nth_append)
  also have "\<dots> = h ! (?rs ! index_of ?r ?rs)"
    using index_of_less [OF mem] by simp
  also have "\<dots> = h ! ?r" using nth_index_of [OF mem] by simp
  finally show ?thesis .
qed

lemma get_function_member:
  "get_function h p fn = Inr r \<Longrightarrow> r \<in> set (program_functions p) \<and> name (h ! r) = fn"
  by (auto simp: get_function_def find_Some_iff split: option.splits)

lemma sample_to_program_assembled:
  assumes "sample_to_program E h g v t fte = Some (Inr (evolved, ptext), h2)"
  shows "\<exists>nb. get_function (snd (deepcopy h t)) (fst (deepcopy h t)) fte = Inr evolved
           \<and> h2 = (snd (deepcopy h t))[evolved := (snd (deepcopy h t) ! evolved)\<lparr>body := nb\<rparr>]
           \<and> ptext = program_text E h2 (fst (deepcopy h t))"
  using assms
  by (auto simp: sample_to_program_def Let_def split: option.splits sum.splits prod.splits)

lemma sample_to_program_extends:
  assumes "sample_to_program E h g v t fte = Some (r, h')"
  shows "extends h h'"
proof -
  have dc: "extends h (snd (deepcopy h t))"
    unfolding deepcopy_store by (rule extends_append)
  show ?thesis
  proof (cases r)
    case (Inl e)
    with assms have "h' = h \<or> h' = snd (deepcopy h t)"
      by (auto simp: sample_to_program_def Let_def split: option.splits sum.splits prod.splits)
    with dc show ?thesis by (auto simp: extends_refl)
  next
    case (Inr res)
    obtain evolved ptext where res: "res = (evolved, ptext)" by (cases res)
    from sample_to_program_assembled [OF assms [unfolded Inr res]] obtain nb where
      gf: "get_function (snd (deepcopy h t)) (fst (deepcopy h t)) fte = Inr evolved"
      and h': "h' = (snd (deepcopy h t))[evolved := (snd (deepcopy h t) ! evolved)\<lparr>body := nb\<rparr>]"
      by blast
    from get_function_member [OF gf] deepcopy_fresh have "length h \<le> evolved" by blast
    then show ?thesis unfolding h' using dc by (rule extends_update)
  qed
qed

lemma analyse_extends:
  assumes "analyse E ev s sample island version = Some (r, s')"
  shows "extends (store s) (store s')"
proof -
  from assms obtain r0 h where
    stp: "sample_to_program E (store s) sample version (template ev) (function_to_evolve ev) = Some (r0, h)"
    and st: "store s' = h"
    by (auto simp: analyse_def split: option.splits sum.splits prod.splits if_splits)
  from sample_to_program_extends [OF stp] st show ?thesis by simp
qed

lemma analysed_extends: "analysed E ev s s1 \<Longrightarrow> extends (store s) (store s1)"
proof (induction rule: analysed.induct)
  case analysed_none
  show ?case by (rule extends_refl)
next
  case (analysed_call s1 sample island_id version_generated r s2)
  from analysed_call.IH analyse_extends [OF analysed_call.hyps(2)]
  show ?case by (rule extends_trans)
qed

lemma functions_of_extends:
  "valid_refs h p \<Longrightarrow> extends h h' \<Longrightarrow> functions_of h' p = functions_of h p"
  by (auto simp: functions_of_def valid_refs_def extends_def)

lemma scenario_analyse_bool:
  "analyse scenario_env (scenario_evaluator [21]) scenario_state ''  return x > 0'' None None
     = Some (Inr (), scenario_state\<lparr>store := scenario_store @ [fn_validate, fn_f\<lparr>body := ''  return x > 0\<newline>\<newline>''\<rparr>, fn_run],
                                     workers := [(21, Exited)],
                                     registered := [(4, None, [(''21'', PyBool True)])]\<rparr>)"
  unfolding analyse_assembled [OF scenario_assembly_bool]
  by (simp add: scenario_eval)

lemma scenario_trim_double:
  "trim_function_body scenario_parse ''  return x * 2'' = Some (Inr ''  return x * 2\<newline>\<newline>'')"
  using scenario_trim [of "''  return x * 2''"] by (simp add: scenario_parse_def text_eval)

lemma scenario_trim_identity:
  "trim_function_body scenario_parse ''  return x'' = Some (Inr ''  return x\<newline>\<newline>'')"
  using scenario_trim [of "''  return x''"] by (simp add: scenario_parse_def text_eval)

lemma scenario_second_assembly:
  "sample_to_program scenario_env
     (scenario_store @ [fn_validate, fn_f\<lparr>body := ''  return x > 0\<newline>\<newline>''\<rparr>, fn_run])
     ''  return x * 2'' None scenario_template ''f''
   = Some (Inr (7, scenario_program ''  return x * 2\<newline>\<newline>''),
           scenario_store @ [fn_validate, fn_f\<lparr>body := ''  return x > 0\<newline>\<newline>''\<rparr>, fn_run]
             @ [fn_validate, fn_f\<lparr>body := ''  return x * 2\<newline>\<newline>''\<rparr>, fn_run])"
proof -
  have dc: "deepcopy [fn_validate, fn_f, fn_run, fn_validate, fn_f\<lparr>body := ''  return x > 0\<newline>\<newline>''\<rparr>, fn_run]
              scenario_template
     = (\<lparr>preface = [], program_functions = [6, 7, 8]\<rparr>,
        [fn_validate, fn_f, fn_run, fn_validate, fn_f\<lparr>body := ''  return x > 0\<newline>\<newline>''\<rparr>, fn_run,
         fn_validate, fn_f, fn_run])"
    by (simp add: deepcopy_def scenario_template_def)
  have gf: "get_function [fn_validate, fn_f, fn_run, fn_validate, fn_f\<lparr>body := ''  return x > 0\<newline>\<newline>''\<rparr>, fn_run,
         fn_validate, fn_f, fn_run]
              \<lparr>preface = [], program_functions = [6, 7, 8]\<rparr> ''f'' = Inr 7"
    by (simp add: get_function_def fn_validate_def fn_f_def fn_run_def)
  show ?thesis
    by (simp add: Let_def sample_to_program_def scenario_trim_double scenario_env_def scenario_store_def dc gf
        program_text_def functions_of_def scenario_program_def)
qed

text \<open>
  C4 as stated fails in its last part: when the recovered body is the body the template
  already has, the assembled program differs from the template in no Function's body.
  Here the three Functions of the copy equal the three of the template.
\<close>

theorem template_never_mutated_counterexample:
  "sample_to_program scenario_env fixpoint_store ''  return x'' None scenario_template ''f''
     = Some (Inr (4, scenario_program ''  return x\<newline>\<newline>''), fixpoint_store @ fixpoint_store)
   \<and> fst (deepcopy fixpoint_store scenario_template) = \<lparr>preface = [], program_functions = [3, 4, 5]\<rparr>
   \<and> functions_of (fixpoint_store @ fixpoint_store) \<lparr>preface = [], program_functions = [3, 4, 5]\<rparr>
       = functions_of fixpoint_store scenario_template"
proof -
  have dc: "deepcopy [fn_validate, fn_f\<lparr>body := ''  return x\<newline>\<newline>''\<rparr>, fn_run] scenario_template
     = (\<lparr>preface = [], program_functions = [3, 4, 5]\<rparr>,
        [fn_validate, fn_f\<lparr>body := ''  return x\<newline>\<newline>''\<rparr>, fn_run,
         fn_validate, fn_f\<lparr>body := ''  return x\<newline>\<newline>''\<rparr>, fn_run])"
    by (simp add: scenario_deepcopy)
  have gf: "get_function [fn_validate, fn_f\<lparr>body := ''  return x\<newline>\<newline>''\<rparr>, fn_run,
         fn_validate, fn_f\<lparr>body := ''  return x\<newline>\<newline>''\<rparr>, fn_run]
              \<lparr>preface = [], program_functions = [3, 4, 5]\<rparr> ''f'' = Inr 4"
    by (simp add: get_function_def fn_validate_def fn_f_def fn_run_def)
  have "sample_to_program scenario_env fixpoint_store ''  return x'' None scenario_template ''f''
     = Some (Inr (4, scenario_program ''  return x\<newline>\<newline>''), fixpoint_store @ fixpoint_store)"
    by (simp add: Let_def sample_to_program_def scenario_trim_identity scenario_env_def fixpoint_store_def dc gf
        program_text_def functions_of_def scenario_program_def)
  moreover have "fst (deepcopy fixpoint_store scenario_template) = \<lparr>preface = [], program_functions = [3, 4, 5]\<rparr>"
    using dc by (simp add: fixpoint_store_def)
  moreover have "functions_of (fixpoint_store @ fixpoint_store) \<lparr>preface = [], program_functions = [3, 4, 5]\<rparr>
       = functions_of fixpoint_store scenario_template"
    by (simp add: functions_of_def fixpoint_store_def scenario_template_def)
  ultimately show ?thesis by blast
qed

text \<open>
  C4, amended. After any number of calls of \<open>analyse\<close> the Functions of the template
  and its rendered text are what they were, and assembling one more program leaves them
  so. The assembled program is rendered from a deep copy all of whose Function objects
  are new, so it shares none with the template or with an earlier assembled program,
  and its Functions equal the template's position by position, except that the evolved
  function has the new body: at most one Function object differs, and only in its body.
\<close>

theorem template_never_mutated:
  assumes valid: "valid_refs (store s) (template ev)"
    and calls: "analysed E ev s s1"
    and asm: "sample_to_program E (store s1) sample version (template ev) (function_to_evolve ev)
                = Some (Inr (evolved, ptext), h2)"
  shows "functions_of (store s1) (template ev) = functions_of (store s) (template ev)
       \<and> program_text E (store s1) (template ev) = program_text E (store s) (template ev)
       \<and> functions_of h2 (template ev) = functions_of (store s) (template ev)
       \<and> program_text E h2 (template ev) = program_text E (store s) (template ev)
       \<and> (let program = fst (deepcopy (store s1) (template ev)) in
            ptext = program_text E h2 program
            \<and> (\<forall>r \<in> set (program_functions program). length (store s1) \<le> r)
            \<and> evolved \<in> set (program_functions program)
            \<and> name (h2 ! evolved) = function_to_evolve ev
            \<and> length (program_functions program) = length (program_functions (template ev))
            \<and> (\<forall>i < length (program_functions program).
                  h2 ! (program_functions program ! i)
                    = (if program_functions program ! i = evolved
                       then (store s ! (program_functions (template ev) ! i))\<lparr>body := body (h2 ! evolved)\<rparr>
                       else store s ! (program_functions (template ev) ! i))))"
proof -
  let ?t = "template ev"
  let ?p = "fst (deepcopy (store s1) ?t)"
  let ?h1 = "snd (deepcopy (store s1) ?t)"
  have e1: "extends (store s) (store s1)" by (rule analysed_extends [OF calls])
  have e2: "extends (store s1) h2" by (rule sample_to_program_extends [OF asm])
  have e12: "extends (store s) h2" by (rule extends_trans [OF e1 e2])
  have f1: "functions_of (store s1) ?t = functions_of (store s) ?t"
    by (rule functions_of_extends [OF valid e1])
  have f2: "functions_of h2 ?t = functions_of (store s) ?t"
    by (rule functions_of_extends [OF valid e12])
  from sample_to_program_assembled [OF asm] obtain nb where
    gf: "get_function ?h1 ?p (function_to_evolve ev) = Inr evolved"
    and h2: "h2 = ?h1[evolved := (?h1 ! evolved)\<lparr>body := nb\<rparr>]"
    and ptx: "ptext = program_text E h2 ?p"
    by blast
  have mem: "evolved \<in> set (program_functions ?p)" using get_function_member [OF gf] by simp
  have fresh: "\<forall>r \<in> set (program_functions ?p). length (store s1) \<le> r"
    using deepcopy_fresh by blast
  have ev_lt: "evolved < length ?h1" using deepcopy_fresh [OF mem] by simp
  have len: "length (program_functions ?p) = length (program_functions ?t)"
    by (simp add: deepcopy_refs)
  have nb: "body (h2 ! evolved) = nb" unfolding h2 using ev_lt by simp
  have nm: "name (h2 ! evolved) = function_to_evolve ev"
    unfolding h2 using ev_lt get_function_member [OF gf] by simp
  have cells: "\<forall>i < length (program_functions ?p).
                  h2 ! (program_functions ?p ! i)
                    = (if program_functions ?p ! i = evolved
                       then (store s ! (program_functions ?t ! i))\<lparr>body := body (h2 ! evolved)\<rparr>
                       else store s ! (program_functions ?t ! i))"
  proof (intro allI impI)
    fix i assume i: "i < length (program_functions ?p)"
    then have it: "i < length (program_functions ?t)" using len by simp
    then have "program_functions ?t ! i < length (store s)"
      using valid by (simp add: valid_refs_def)
    then have old: "store s1 ! (program_functions ?t ! i) = store s ! (program_functions ?t ! i)"
      using e1 by (simp add: extends_def)
    have copy: "?h1 ! (program_functions ?p ! i) = store s ! (program_functions ?t ! i)"
      using deepcopy_content [OF it, of "store s1"] old by simp
    show "h2 ! (program_functions ?p ! i)
                    = (if program_functions ?p ! i = evolved
                       then (store s ! (program_functions ?t ! i))\<lparr>body := body (h2 ! evolved)\<rparr>
                       else store s ! (program_functions ?t ! i))"
    proof (cases "program_functions ?p ! i = evolved")
      case True
      have "h2 ! evolved = (?h1 ! evolved)\<lparr>body := nb\<rparr>" unfolding h2 using ev_lt by simp
      with True copy nb show ?thesis by simp
    next
      case False
      then have "h2 ! (program_functions ?p ! i) = ?h1 ! (program_functions ?p ! i)"
        unfolding h2 by simp
      with False copy show ?thesis by simp
    qed
  qed
  from f1 f2 ptx fresh mem nm len cells show ?thesis
    by (simp add: program_text_def Let_def)
qed

theorem template_never_mutated_witness:
  "valid_refs (store scenario_state) (template (scenario_evaluator [21]))
   \<and> (\<exists>s1 h2. analysed scenario_env (scenario_evaluator [21]) scenario_state s1
         \<and> length (store s1) = 6
         \<and> sample_to_program scenario_env (store s1) ''  return x * 2'' None scenario_template ''f''
              = Some (Inr (7, scenario_program ''  return x * 2\<newline>\<newline>''), h2)
         \<and> program_text scenario_env h2 scenario_template
              = program_text scenario_env scenario_store scenario_template
         \<and> functions_of h2 scenario_template = [fn_validate, fn_f, fn_run]
         \<and> program_functions (fst (deepcopy (store s1) scenario_template)) = [6, 7, 8]
         \<and> h2 ! 7 = fn_f\<lparr>body := ''  return x * 2\<newline>\<newline>''\<rparr>)"
proof -
  let ?s1 = "scenario_state\<lparr>store := scenario_store @ [fn_validate, fn_f\<lparr>body := ''  return x > 0\<newline>\<newline>''\<rparr>, fn_run],
                                     workers := [(21, Exited)],
                                     registered := [(4, None, [(''21'', PyBool True)])]\<rparr>"
  let ?h2 = "scenario_store @ [fn_validate, fn_f\<lparr>body := ''  return x > 0\<newline>\<newline>''\<rparr>, fn_run]
             @ [fn_validate, fn_f\<lparr>body := ''  return x * 2\<newline>\<newline>''\<rparr>, fn_run]"
  have valid: "valid_refs (store scenario_state) (template (scenario_evaluator [21]))"
    by (simp add: valid_refs_def scenario_eval scenario_store_def scenario_template_def)
  have calls: "analysed scenario_env (scenario_evaluator [21]) scenario_state ?s1"
    by (rule analysed_call [OF analysed_none scenario_analyse_bool])
  have asm: "sample_to_program scenario_env (store ?s1) ''  return x * 2'' None
               (template (scenario_evaluator [21])) (function_to_evolve (scenario_evaluator [21]))
             = Some (Inr (7, scenario_program ''  return x * 2\<newline>\<newline>''), ?h2)"
    using scenario_second_assembly by (simp add: scenario_eval)
  from template_never_mutated [OF valid calls asm]
  have "program_text scenario_env ?h2 (template (scenario_evaluator [21]))
          = program_text scenario_env (store scenario_state) (template (scenario_evaluator [21]))"
    and "functions_of ?h2 (template (scenario_evaluator [21]))
          = functions_of (store scenario_state) (template (scenario_evaluator [21]))"
    by simp_all
  then have "program_text scenario_env ?h2 scenario_template
              = program_text scenario_env scenario_store scenario_template"
    and "functions_of ?h2 scenario_template = [fn_validate, fn_f, fn_run]"
    by (simp_all add: scenario_eval functions_of_def scenario_store_def scenario_template_def)
  moreover have "length (store ?s1) = 6" by (simp add: scenario_store_def)
  moreover have "program_functions (fst (deepcopy (store ?s1) scenario_template)) = [6, 7, 8]"
    by (simp add: deepcopy_def scenario_template_def scenario_store_def)
  moreover have "?h2 ! 7 = fn_f\<lparr>body := ''  return x * 2\<newline>\<newline>''\<rparr>"
    by (simp add: scenario_store_def)
  moreover have "sample_to_program scenario_env (store ?s1) ''  return x * 2'' None scenario_template ''f''
             = Some (Inr (7, scenario_program ''  return x * 2\<newline>\<newline>''), ?h2)"
    using asm by (simp add: scenario_eval)
  ultimately show ?thesis using valid calls by blast
qed

end
